theory Spec2Isabelle
  imports Main
begin

section \<open>Python strings\<close>

text \<open>
  A Python \<open>str\<close> is a sequence of Unicode code points, so a string is a list of
  code points (natural numbers); slicing and \<open>len\<close> count code points. \<open>lit\<close> turns
  an ASCII literal into that form.
\<close>

type_synonym pystr = "nat list"

definition lit :: "string \<Rightarrow> pystr" where
  "lit s = map of_char s"

text \<open>
  \<open>str.isspace\<close> on one code point. \<open>str.strip()\<close> and the regular expression
  class \<open>\s\<close> on \<open>str\<close> patterns both use this predicate: U+0009..U+000D,
  U+001C..U+0020, U+0085, U+00A0, U+1680, U+2000..U+200A, U+2028, U+2029, U+202F,
  U+205F, U+3000.
\<close>

definition isspace :: "nat \<Rightarrow> bool" where
  "isspace c =
     ((0x09 \<le> c \<and> c \<le> 0x0D) \<or> (0x1C \<le> c \<and> c \<le> 0x20) \<or> c = 0x85 \<or> c = 0xA0
      \<or> c = 0x1680 \<or> (0x2000 \<le> c \<and> c \<le> 0x200A) \<or> c = 0x2028 \<or> c = 0x2029
      \<or> c = 0x202F \<or> c = 0x205F \<or> c = 0x3000)"

text \<open>\<open>s.startswith(p)\<close> and \<open>s.endswith(p)\<close>.\<close>

definition startswith :: "pystr \<Rightarrow> pystr \<Rightarrow> bool" where
  "startswith s p = (take (length p) s = p)"

definition endswith :: "pystr \<Rightarrow> pystr \<Rightarrow> bool" where
  "endswith s p = (length p \<le> length s \<and> drop (length s - length p) s = p)"

text \<open>\<open>sub in s\<close>: \<open>sub\<close> occurs in \<open>s\<close> as a contiguous substring.\<close>

fun contains :: "pystr \<Rightarrow> pystr \<Rightarrow> bool" where
  "contains [] sub = (sub = [])"
| "contains (c # cs) sub = (startswith (c # cs) sub \<or> contains cs sub)"

text \<open>
  \<open>s.replace(old, new)\<close>: the occurrences of \<open>old\<close> are found from the left and do
  not overlap. An empty \<open>old\<close> matches before every character and at the end.
\<close>

fun replace :: "pystr \<Rightarrow> pystr \<Rightarrow> pystr \<Rightarrow> pystr" where
  "replace old new [] = (if old = [] then new else [])"
| "replace old new (c # cs) =
     (if old = [] then new @ c # replace old new cs
      else if startswith (c # cs) old then new @ replace old new (drop (length old) (c # cs))
      else c # replace old new cs)"

text \<open>
  Stripping the characters that satisfy \<open>P\<close> from both ends; \<open>s.strip()\<close> strips
  white space and \<open>s.strip(chars)\<close> the characters of \<open>chars\<close>.
\<close>

definition strip_by :: "(nat \<Rightarrow> bool) \<Rightarrow> pystr \<Rightarrow> pystr" where
  "strip_by P s = rev (dropWhile P (rev (dropWhile P s)))"

definition strip :: "pystr \<Rightarrow> pystr" where
  "strip s = strip_by isspace s"

definition strip_chars :: "pystr \<Rightarrow> pystr \<Rightarrow> pystr" where
  "strip_chars s chars = strip_by (\<lambda>c. c \<in> set chars) s"

text \<open>
  \<open>re.sub(pattern, repl, s)\<close> for a pattern that is a single character class: every
  character of the class is replaced by \<open>repl\<close>.
\<close>

definition re_sub_class :: "(nat \<Rightarrow> bool) \<Rightarrow> pystr \<Rightarrow> pystr \<Rightarrow> pystr" where
  "re_sub_class cls repl s = concat (map (\<lambda>c. if cls c then repl else [c]) s)"

text \<open>Truthiness of a value that is \<open>None\<close> or a string.\<close>

definition truthy :: "pystr option \<Rightarrow> bool" where
  "truthy v = (case v of None \<Rightarrow> False | Some s \<Rightarrow> s \<noteq> [])"

section \<open>subshot.py\<close>

subsection \<open>sanitize_filename and normalize_url\<close>

text \<open>
  The character class \<open>[<>:"/\\|?*\s]\<close> of \<open>sanitize_filename\<close>: the characters
  \<open><\<close> \<open>>\<close> \<open>:\<close> \<open>"\<close> \<open>/\<close> \<open>\\<close> \<open>|\<close> \<open>?\<close> \<open>*\<close> and white space.
\<close>

definition invalid_filename_char :: "nat \<Rightarrow> bool" where
  "invalid_filename_char c =
     (c = 0x3C \<or> c = 0x3E \<or> c = 0x3A \<or> c = 0x22 \<or> c = 0x2F \<or> c = 0x5C
      \<or> c = 0x7C \<or> c = 0x3F \<or> c = 0x2A \<or> isspace c)"

definition sanitize_filename :: "pystr \<Rightarrow> pystr" where
  "sanitize_filename domain =
     (let clean = replace (lit ''http://'') [] (replace (lit ''https://'') [] domain);
          clean = re_sub_class invalid_filename_char (lit ''-'') clean;
          clean = strip_chars clean (lit ''.-'')
      in clean)"

definition normalize_url :: "pystr \<Rightarrow> pystr" where
  "normalize_url subdomain =
     (let subdomain = strip subdomain
      in if \<not> (startswith subdomain (lit ''http://'') \<or> startswith subdomain (lit ''https://''))
         then lit ''https://'' @ subdomain
         else subdomain)"

subsection \<open>load_list\<close>

text \<open>
  What opening and reading the file at a path gives: the file is missing, reading fails
  with some other exception, or the file is read as its list of lines (each with its
  line terminator). \<open>load_list\<close> leaves the process through \<open>sys.exit(1)\<close> in the
  first two cases, which is the left summand of its result.
\<close>

datatype file_read = FileNotFound | ReadError pystr | FileLines "pystr list"

definition load_list :: "(pystr \<Rightarrow> file_read) \<Rightarrow> pystr \<Rightarrow> int + pystr list" where
  "load_list read_file filepath =
     (case read_file filepath of
        FileLines lines \<Rightarrow> Inr (map strip (filter (\<lambda>line. strip line \<noteq> []) lines))
      | FileNotFound \<Rightarrow> Inl 1
      | ReadError e \<Rightarrow> Inl 1)"

subsection \<open>take_screenshot\<close>

text \<open>
  One pass through the \<open>with sync_playwright()\<close> block either reaches
  \<open>return (True, None)\<close>, raises Playwright's \<open>TimeoutError\<close>, or raises another
  \<open>Exception\<close> whose text \<open>str(e)\<close> is recorded. An exception outside
  \<open>Exception\<close> (an interrupt), which neither handler catches, is not modelled.
\<close>

datatype attempt_outcome = Captured | PlaywrightTimeout | Raised pystr

text \<open>
  What \<open>take_screenshot\<close> takes from outside the source: the browser session, here a
  transition on a world state of any type \<open>'w\<close> (arguments: url, output path, timeout);
  \<open>str.lower\<close>; the text of the float \<open>timeout/1000\<close> in an f-string; and the text
  of the \<open>pathlib\<close> path \<open>output_dir / filename\<close>.
\<close>

record 'w runtime =
  capture :: "pystr \<Rightarrow> pystr \<Rightarrow> int \<Rightarrow> 'w \<Rightarrow> attempt_outcome \<times> 'w"
  str_lower :: "pystr \<Rightarrow> pystr"
  float_str :: "int \<Rightarrow> pystr"
  path_join :: "pystr \<Rightarrow> pystr \<Rightarrow> pystr"

text \<open>The value given to \<open>last_error\<close> by the handler of \<open>PlaywrightTimeout\<close>.\<close>

definition timeout_error :: "'w runtime \<Rightarrow> int \<Rightarrow> pystr" where
  "timeout_error rt timeout = lit ''Timeout after '' @ float_str rt timeout @ lit ''s''"

text \<open>The value given to \<open>last_error\<close> by the handler of \<open>Exception\<close>.\<close>

definition simplify_error :: "'w runtime \<Rightarrow> pystr \<Rightarrow> pystr" where
  "simplify_error rt error_str =
     (if contains error_str (lit ''net::ERR_NAME_NOT_RESOLVED'') then lit ''DNS resolution failed''
      else if contains error_str (lit ''net::ERR_CONNECTION_REFUSED'') then lit ''Connection refused''
      else if contains error_str (lit ''net::ERR_CONNECTION_TIMED_OUT'') then lit ''Connection timed out''
      else if contains error_str (lit ''SSL'') \<or> contains (str_lower rt error_str) (lit ''certificate'')
        then lit ''SSL/Certificate error''
      else take 100 error_str)"

text \<open>
  The value of \<open>last_error\<close> after a pass through the \<open>try\<close> block with the given
  outcome, as the two handlers set it; a pass that returns sets none.
\<close>

definition attempt_error :: "'w runtime \<Rightarrow> int \<Rightarrow> attempt_outcome \<Rightarrow> pystr option" where
  "attempt_error rt timeout outcome =
     (case outcome of
        Captured \<Rightarrow> None
      | PlaywrightTimeout \<Rightarrow> Some (timeout_error rt timeout)
      | Raised error_str \<Rightarrow> Some (simplify_error rt error_str))"

text \<open>
  \<open>n\<close> browser sessions in a row on the same arguments, whatever their outcomes: the
  outcomes in order and the world after the last one. The statements about
  \<open>take_screenshot\<close> refer to its attempts through this function.
\<close>

fun run_attempts ::
  "'w runtime \<Rightarrow> pystr \<Rightarrow> pystr \<Rightarrow> int \<Rightarrow> nat \<Rightarrow> 'w \<Rightarrow> attempt_outcome list \<times> 'w" where
  "run_attempts rt url output_path timeout 0 w = ([], w)"
| "run_attempts rt url output_path timeout (Suc n) w =
     (case capture rt url output_path timeout w of
        (outcome, w') \<Rightarrow>
          (case run_attempts rt url output_path timeout n w' of
             (outcomes, w'') \<Rightarrow> (outcome # outcomes, w'')))"


text \<open>
  The \<open>while attempt < retries\<close> loop, with its variables \<open>attempt\<close> and
  \<open>last_error\<close>. The result is the returned pair, the final value of \<open>attempt\<close> (the
  number of passes through the \<open>try\<close> block) and the world after the call.
\<close>

function take_screenshot_loop ::
  "'w runtime \<Rightarrow> pystr \<Rightarrow> pystr \<Rightarrow> int \<Rightarrow> int \<Rightarrow> int \<Rightarrow> pystr option \<Rightarrow> 'w
     \<Rightarrow> (bool \<times> pystr option) \<times> int \<times> 'w" where
  "take_screenshot_loop rt url output_path retries timeout attempt last_error w =
     (if attempt < retries then
        (case capture rt url output_path timeout w of
           (Captured, w') \<Rightarrow> ((True, None), attempt + 1, w')
         | (PlaywrightTimeout, w') \<Rightarrow>
             take_screenshot_loop rt url output_path retries timeout (attempt + 1)
               (Some (timeout_error rt timeout)) w'
         | (Raised error_str, w') \<Rightarrow>
             take_screenshot_loop rt url output_path retries timeout (attempt + 1)
               (Some (simplify_error rt error_str)) w')
      else ((False, last_error), attempt, w))"
  by pat_completeness auto
termination
  by (relation "measure (\<lambda>(rt, url, output_path, retries, timeout, attempt, last_error, w).
        nat (retries - attempt))") auto

definition take_screenshot ::
  "'w runtime \<Rightarrow> pystr \<Rightarrow> pystr \<Rightarrow> int \<Rightarrow> int \<Rightarrow> 'w \<Rightarrow> (bool \<times> pystr option) \<times> int \<times> 'w" where
  "take_screenshot rt url output_path retries timeout w =
     take_screenshot_loop rt url output_path retries timeout 0 None w"

subsection \<open>process_subdomains\<close>

text \<open>
  The lines printed by \<open>process_subdomains\<close>: the progress indicator \<open>[i/N] subdomain\<close>
  before a capture, then \<open>OK\<close> or \<open>FAIL (error)\<close>.
\<close>

datatype progress_line = Progress nat nat pystr | Ok | Fail "pystr option"

text \<open>
  The \<open>for i, subdomain in enumerate(subdomains, 1)\<close> loop with its counters; \<open>len_subdomains\<close>
  is \<open>len(subdomains)\<close> and \<open>out\<close> what has been printed so far.
\<close>

fun process_subdomains_loop ::
  "'w runtime \<Rightarrow> pystr \<Rightarrow> int \<Rightarrow> nat \<Rightarrow> pystr list \<Rightarrow> nat \<Rightarrow> nat \<Rightarrow> nat \<Rightarrow> progress_line list \<Rightarrow> 'w
     \<Rightarrow> (nat \<times> nat) \<times> progress_line list \<times> 'w" where
  "process_subdomains_loop rt output_dir timeout len_subdomains [] i success_count fail_count out w =
     ((success_count, fail_count), out, w)"
| "process_subdomains_loop rt output_dir timeout len_subdomains (subdomain # rest) i success_count fail_count out w =
     (let url = normalize_url subdomain;
          filename = sanitize_filename subdomain @ lit ''.png'';
          output_path = path_join rt output_dir filename;
          out = out @ [Progress i len_subdomains subdomain]
      in case take_screenshot rt url output_path 2 (timeout * 1000) w of
           ((success, error), attempts, w') \<Rightarrow>
             if success
             then process_subdomains_loop rt output_dir timeout len_subdomains rest (i + 1)
                    (success_count + 1) fail_count (out @ [Ok]) w'
             else process_subdomains_loop rt output_dir timeout len_subdomains rest (i + 1)
                    success_count (fail_count + 1) (out @ [Fail error]) w')"

definition process_subdomains ::
  "'w runtime \<Rightarrow> pystr list \<Rightarrow> pystr \<Rightarrow> int \<Rightarrow> 'w \<Rightarrow> (nat \<times> nat) \<times> progress_line list \<times> 'w" where
  "process_subdomains rt subdomains output_dir timeout w =
     process_subdomains_loop rt output_dir timeout (length subdomains) subdomains 1 0 0 [] w"

text \<open>
  Readings of the printed lines: the subdomains of the progress indicators in order, and
  the numbers of \<open>OK\<close> and of \<open>FAIL\<close> lines.
\<close>

fun announced :: "progress_line list \<Rightarrow> pystr list" where
  "announced [] = []"
| "announced (Progress i n subdomain # ls) = subdomain # announced ls"
| "announced (Ok # ls) = announced ls"
| "announced (Fail error # ls) = announced ls"

definition ok_lines :: "progress_line list \<Rightarrow> nat" where
  "ok_lines out = length (filter (\<lambda>l. l = Ok) out)"

definition fail_lines :: "progress_line list \<Rightarrow> nat" where
  "fail_lines out = length (filter (\<lambda>l. case l of Fail error \<Rightarrow> True | _ \<Rightarrow> False) out)"

text \<open>A line is blank when it has no character other than white space.\<close>

definition nonblank :: "pystr \<Rightarrow> bool" where
  "nonblank line = (\<exists>c\<in>set line. \<not> isspace c)"


subsection \<open>A runtime for concrete runs\<close>

text \<open>
  The world is the list of outcomes the coming browser sessions will have (a session
  past the end of the list succeeds); \<open>str.lower\<close> on ASCII letters; the text of
  \<open>30000/1000\<close>, the timeout of the runs below; and the path of a file in a directory.
\<close>

definition scripted ::
  "pystr \<Rightarrow> pystr \<Rightarrow> int \<Rightarrow> attempt_outcome list \<Rightarrow> attempt_outcome \<times> attempt_outcome list" where
  "scripted url output_path timeout w = (case w of [] \<Rightarrow> (Captured, []) | x # xs \<Rightarrow> (x, xs))"

definition ascii_lower :: "pystr \<Rightarrow> pystr" where
  "ascii_lower s = map (\<lambda>c. if 0x41 \<le> c \<and> c \<le> 0x5A then c + 0x20 else c) s"

definition demo_runtime :: "attempt_outcome list runtime" where
  "demo_runtime =
     \<lparr>capture = scripted, str_lower = ascii_lower, float_str = (\<lambda>timeout. lit ''30.0''),
      path_join = (\<lambda>output_dir filename. output_dir @ lit ''/'' @ filename)\<rparr>"


text \<open>
  A file of three lines, the second blank, as the list file of the runs below.
\<close>

definition demo_lines :: "pystr list" where
  "demo_lines = [lit ''a.example.com'' @ [0x0A], lit ''  '' @ [0x0A], lit ''b.example.com'' @ [0x0A]]"

definition demo_read_file :: "pystr \<Rightarrow> file_read" where
  "demo_read_file filepath =
     (if filepath = lit ''alive_subs.txt'' then FileLines demo_lines else FileNotFound)"

declare take_screenshot_loop.simps [simp del]

section \<open>fastrec.py\<close>

subsection \<open>The operating system\<close>

text \<open>
  An exception is represented by its text. A launched process is represented by what
  the code can see of it: the lines read from its output, the exception that reading
  raises after those lines if there is one (output that cannot be decoded), and its
  return code. Every launched process is taken to end its output.
\<close>

type_synonym exn = pystr

record process =
  proc_output :: "pystr list"
  proc_read_error :: "exn option"
  proc_returncode :: int

text \<open>
  A line printed to the console, named by the \<open>print\<close> statement and the values it
  shows. \<open>Rule\<close> is a line of seventy \<open>=\<close>, \<open>-\<close> or \<open>!\<close>.
\<close>

datatype console_line =
  Rule
  | Running pystr
  | OutputLine pystr
  | ExitedWithCode int
  | CompletedSuccessfully
  | Completed
  | ErrorRunningCommand exn
  | StartingParallel pystr pystr
  | BothFinished pystr pystr
  | SubshotNotFound
  | InstallSubshot
  | PlaywrightNotInstalled
  | InstallPlaywright
  | AliveSubsNotFound
  | AliveSubsEmpty
  | RunningSubshot
  | ScreenshotsCompleted
  | ErrorRunningSubshot exn
  | StartingWorkflow
  | StepHeader nat
  | NoAliveSubdomains
  | NucleiPathWarning
  | UpdateThePath
  | SkippingNuclei
  | ReconComplete

text \<open>
  What \<open>fastrec.py\<close> asks of the operating system, as operations on a world state of
  any type \<open>'w\<close>: \<open>os.path.exists\<close>, \<open>os.path.getsize\<close>, \<open>shutil.which\<close>,
  \<open>importlib.util.find_spec\<close>, \<open>print\<close>, \<open>open(path, 'w')\<close>, \<open>write\<close> and \<open>close\<close>
  on the opened file (named by its path), \<open>subprocess.Popen\<close>, the two threads of
  \<open>run_parallel_commands\<close> from their start to their \<open>join\<close>, and the directory of the
  script. An operation with a sum in its result can raise (the left summand).
  \<open>os_popen\<close> raises when no process is launched.
\<close>

record 'w os =
  os_exists :: "pystr \<Rightarrow> 'w \<Rightarrow> bool"
  os_getsize :: "pystr \<Rightarrow> 'w \<Rightarrow> nat"
  os_which :: "pystr \<Rightarrow> 'w \<Rightarrow> pystr option"
  os_find_spec :: "pystr \<Rightarrow> 'w \<Rightarrow> exn + bool"
  os_print :: "console_line \<Rightarrow> 'w \<Rightarrow> (exn + unit) \<times> 'w"
  os_open :: "pystr \<Rightarrow> 'w \<Rightarrow> (exn + unit) \<times> 'w"
  os_write :: "pystr \<Rightarrow> pystr \<Rightarrow> 'w \<Rightarrow> (exn + unit) \<times> 'w"
  os_close :: "pystr \<Rightarrow> 'w \<Rightarrow> (exn + unit) \<times> 'w"
  os_popen :: "pystr \<Rightarrow> pystr option \<Rightarrow> 'w \<Rightarrow> (exn + process) \<times> 'w"
  os_threads :: "pystr \<Rightarrow> pystr \<Rightarrow> pystr option \<Rightarrow> 'w \<Rightarrow> 'w"
  os_script_dir :: pystr

text \<open>
  Statements that change the world and may raise: returning a value, raising, one
  statement after another (with and without the value of the first), \<open>try\<close> with
  \<open>except Exception as e\<close>, a block of statements, and a call whose value is dropped.
\<close>

definition io_return :: "'a \<Rightarrow> 'w \<Rightarrow> (exn + 'a) \<times> 'w" where
  "io_return x w = (Inr x, w)"

definition io_raise :: "exn \<Rightarrow> 'w \<Rightarrow> (exn + 'a) \<times> 'w" where
  "io_raise e w = (Inl e, w)"

definition io_bind ::
  "('w \<Rightarrow> (exn + 'a) \<times> 'w) \<Rightarrow> ('a \<Rightarrow> 'w \<Rightarrow> (exn + 'b) \<times> 'w) \<Rightarrow> 'w \<Rightarrow> (exn + 'b) \<times> 'w" where
  "io_bind m f w = (case m w of (Inl e, w') \<Rightarrow> (Inl e, w') | (Inr x, w') \<Rightarrow> f x w')"

definition io_then ::
  "('w \<Rightarrow> (exn + 'a) \<times> 'w) \<Rightarrow> ('w \<Rightarrow> (exn + 'b) \<times> 'w) \<Rightarrow> 'w \<Rightarrow> (exn + 'b) \<times> 'w" where
  "io_then m k w = (case m w of (Inl e, w') \<Rightarrow> (Inl e, w') | (Inr x, w') \<Rightarrow> k w')"

definition io_try ::
  "('w \<Rightarrow> (exn + 'a) \<times> 'w) \<Rightarrow> (exn \<Rightarrow> 'w \<Rightarrow> (exn + 'a) \<times> 'w) \<Rightarrow> 'w \<Rightarrow> (exn + 'a) \<times> 'w" where
  "io_try m handler w = (case m w of (Inl e, w') \<Rightarrow> handler e w' | (Inr x, w') \<Rightarrow> (Inr x, w'))"

fun io_seq :: "('w \<Rightarrow> (exn + unit) \<times> 'w) list \<Rightarrow> 'w \<Rightarrow> (exn + unit) \<times> 'w" where
  "io_seq [] w = (Inr (), w)"
| "io_seq (m # ms) w = (case m w of (Inl e, w') \<Rightarrow> (Inl e, w') | (Inr u, w') \<Rightarrow> io_seq ms w')"

definition io_ignore :: "('w \<Rightarrow> (exn + 'a) \<times> 'w) \<Rightarrow> 'w \<Rightarrow> (exn + unit) \<times> 'w" where
  "io_ignore m w = (case m w of (Inl e, w') \<Rightarrow> (Inl e, w') | (Inr x, w') \<Rightarrow> (Inr (), w'))"

text \<open>\<open>os.path.join(a, b)\<close> on POSIX.\<close>

definition os_path_join :: "pystr \<Rightarrow> pystr \<Rightarrow> pystr" where
  "os_path_join a b =
     (if startswith b (lit ''/'') then b
      else if a = [] \<or> endswith a (lit ''/'') then a @ b
      else a @ lit ''/'' @ b)"

subsection \<open>run_command and run_piped_command\<close>


text \<open>
  The loop \<open>for line in process.stdout\<close>: each line is printed and, when a file is
  open, written to it; after the last line the iteration ends or raises.
\<close>

fun stream_lines :: "'w os \<Rightarrow> pystr option \<Rightarrow> pystr list \<Rightarrow> 'w \<Rightarrow> (exn + unit) \<times> 'w" where
  "stream_lines os file_handle [] = io_return ()"
| "stream_lines os file_handle (line # lines) =
     io_then (os_print os (OutputLine line))
       (io_then (case file_handle of
                   None \<Rightarrow> io_return ()
                 | Some f \<Rightarrow> os_write os f line)
          (stream_lines os file_handle lines))"

definition read_output :: "'w os \<Rightarrow> process \<Rightarrow> pystr option \<Rightarrow> 'w \<Rightarrow> (exn + unit) \<times> 'w" where
  "read_output os process file_handle =
     io_then (stream_lines os file_handle (proc_output process))
       (case proc_read_error process of
          None \<Rightarrow> io_return ()
        | Some e \<Rightarrow> io_raise e)"





text \<open>
  \<open>run_piped_command\<close>: the same prints and loop without a file; a return code other
  than 0 is printed and the function still returns \<open>True\<close>.
\<close>

definition run_piped_command ::
  "'w os \<Rightarrow> pystr \<Rightarrow> pystr option \<Rightarrow> 'w \<Rightarrow> (exn + bool) \<times> 'w" where
  "run_piped_command os command cwd =
     io_then (os_print os Rule)
       (io_then (os_print os (Running command))
          (io_then (os_print os Rule)
             (io_try
                (io_bind (os_popen os command cwd) (\<lambda>process.
                   io_then (read_output os process None)
                     (io_then (if proc_returncode process \<noteq> 0
                               then os_print os (ExitedWithCode (proc_returncode process))
                               else io_return ())
                        (io_then (os_print os Completed) (io_return True)))))
                (\<lambda>e. io_then (os_print os (ErrorRunningCommand e)) (io_return False)))))"

text \<open>
  \<open>run_parallel_commands\<close> prints, starts two threads and joins both, and prints again.
  What the two threads do between start and join, with its interleaving, is one
  operation of the operating system; an exception inside a thread does not reach the
  main thread.
\<close>

definition run_parallel_commands ::
  "'w os \<Rightarrow> pystr \<Rightarrow> pystr \<Rightarrow> pystr \<Rightarrow> pystr \<Rightarrow> pystr option \<Rightarrow> 'w \<Rightarrow> (exn + unit) \<times> 'w" where
  "run_parallel_commands os cmd1 cmd2 label1 label2 cwd =
     io_seq [os_print os (StartingParallel label1 label2),
             (\<lambda>w. (Inr (), os_threads os cmd1 cmd2 cwd w)),
             os_print os (BothFinished label1 label2)]"

subsection \<open>run_subshot\<close>

text \<open>
  \<open>script_dir\<close> is an absolute path, for which the \<open>pathlib\<close> path
  \<open>script_dir / name\<close> has the text of \<open>os.path.join(script_dir, name)\<close>.
\<close>

definition check_subshot_available :: "'w os \<Rightarrow> 'w \<Rightarrow> pystr option" where
  "check_subshot_available os w =
     (let script_dir = os_script_dir os;
          subshot_py = os_path_join script_dir (lit ''subshot.py'');
          subshot_no_ext = os_path_join script_dir (lit ''subshot'')
      in if os_exists os subshot_py w then Some subshot_py
         else if os_exists os subshot_no_ext w then Some subshot_no_ext
         else (let subshot_in_path = os_which os (lit ''subshot'') w
               in if truthy subshot_in_path then subshot_in_path else None))"

definition check_playwright_installed :: "'w os \<Rightarrow> 'w \<Rightarrow> bool" where
  "check_playwright_installed os w =
     (case os_find_spec os (lit ''playwright'') w of
        Inl e \<Rightarrow> False
      | Inr found \<Rightarrow> found)"

definition subshot_command :: "pystr \<Rightarrow> pystr" where
  "subshot_command subshot_path =
     (if endswith subshot_path (lit ''.py'')
      then lit ''python3 '' @ [0x22] @ subshot_path @ [0x22] @ lit '' -f alive_subs.txt -o screenshots''
      else [0x22] @ subshot_path @ [0x22] @ lit '' -f alive_subs.txt -o screenshots'')"

text \<open>
  \<open>run_subshot\<close>: the four checks are made on the world as it is at the call; the
  first one that fails prints its lines and returns \<open>False\<close>. Otherwise three prints,
  then a \<open>try\<close> block that launches subshot, and a handler that returns \<open>False\<close>.
\<close>

definition run_subshot :: "'w os \<Rightarrow> pystr \<Rightarrow> 'w \<Rightarrow> (exn + bool) \<times> 'w" where
  "run_subshot os target_dir w =
     (let subshot_path = check_subshot_available os w
      in if \<not> truthy subshot_path
         then io_then (os_print os SubshotNotFound)
                (io_then (os_print os InstallSubshot) (io_return False)) w
         else if \<not> check_playwright_installed os w
         then io_then (os_print os PlaywrightNotInstalled)
                (io_then (os_print os InstallPlaywright) (io_return False)) w
         else (let alive_subs_path = os_path_join target_dir (lit ''alive_subs.txt'')
               in if \<not> os_exists os alive_subs_path w
                  then io_then (os_print os AliveSubsNotFound) (io_return False) w
                  else if os_getsize os alive_subs_path w = 0
                  then io_then (os_print os AliveSubsEmpty) (io_return False) w
                  else io_then (os_print os Rule)
                         (io_then (os_print os RunningSubshot)
                            (io_then (os_print os Rule)
                               (io_try
                                  (io_bind (os_popen os
                                       (subshot_command (case subshot_path of
                                                           None \<Rightarrow> []
                                                         | Some p \<Rightarrow> p))
                                       (Some target_dir))
                                     (\<lambda>process.
                                        io_then (read_output os process None)
                                          (io_then (os_print os ScreenshotsCompleted)
                                             (io_return True))))
                                  (\<lambda>e. io_then (os_print os (ErrorRunningSubshot e))
                                         (io_return False))))) w))"

subsection \<open>run_recon\<close>

text \<open>The value of \<open>NUCLEI_TEMPLATES_PATH\<close> in the source.\<close>

definition NUCLEI_TEMPLATES_PATH :: pystr where
  "NUCLEI_TEMPLATES_PATH = lit ''/path/nuclei-templates/http/exposures/''"

text \<open>The command lines of the seven steps.\<close>

definition subfinder_command :: "int \<Rightarrow> pystr \<Rightarrow> pystr" where
  "subfinder_command mode target_input =
     (if mode = 1 then lit ''subfinder -d '' @ target_input @ lit '' -all | httpx -o alive_subs.txt''
      else lit ''subfinder -dL wildcards.txt -all | httpx -o alive_subs.txt'')"

definition cmd_gau :: pystr where
  "cmd_gau = lit ''cat alive_subs.txt | gau --threads 5 >> gau.txt''"

definition cmd_katana :: pystr where
  "cmd_katana = lit ''cat alive_subs.txt | katana -d 5 -silent >> katana.txt''"

definition cmd_combine :: pystr where
  "cmd_combine = lit ''cat katana.txt gau.txt | sort -u > allurls.txt''"

definition cmd_xss :: pystr where
  "cmd_xss = lit ''cat allurls.txt | gf xss >> xss.txt''"

definition cmd_kxss :: pystr where
  "cmd_kxss = lit ''cat xss.txt | kxss >> kxss.txt''"

text \<open>The command \<open>grep '\.js$' allurls.txt > alljs.txt\<close>.\<close>

definition cmd_grep_js :: pystr where
  "cmd_grep_js = lit ''grep '' @ [0x27, 0x5C] @ lit ''.js$'' @ [0x27] @ lit '' allurls.txt > alljs.txt''"

definition cmd_httpx_js :: pystr where
  "cmd_httpx_js = lit ''cat alljs.txt | httpx -o alive_js.txt''"

definition nuclei_command :: "pystr \<Rightarrow> pystr" where
  "nuclei_command templates_path = lit ''cat alive_js.txt | nuclei -t '' @ templates_path"

text \<open>
  \<open>run_recon\<close> from the banner \<open>STARTING RECONNAISSANCE WORKFLOW\<close> to the banner
  \<open>RECONNAISSANCE COMPLETE\<close>. Its parameters are the module constant
  \<open>NUCLEI_TEMPLATES_PATH\<close> and the values \<open>mode\<close>, \<open>target_input\<close> and \<open>target_dir\<close>
  that the prompts and \<open>create_target_directory\<close> produce before. The values returned
  by \<open>run_piped_command\<close> and \<open>run_subshot\<close> are dropped, as in the source.
\<close>

definition run_recon ::
  "'w os \<Rightarrow> pystr \<Rightarrow> int \<Rightarrow> pystr \<Rightarrow> pystr \<Rightarrow> 'w \<Rightarrow> (exn + unit) \<times> 'w" where
  "run_recon os templates_path mode target_input target_dir =
     (let cwd = Some target_dir;
          alive_subs_path = os_path_join target_dir (lit ''alive_subs.txt'')
      in io_seq
          [os_print os Rule, os_print os StartingWorkflow, os_print os Rule,
           os_print os (StepHeader 1), os_print os Rule,
           io_ignore (run_piped_command os (subfinder_command mode target_input) cwd),
           (\<lambda>w. if \<not> os_exists os alive_subs_path w \<or> os_getsize os alive_subs_path w = 0
                 then os_print os NoAliveSubdomains w
                 else (Inr (), w)),
           os_print os (StepHeader 2), os_print os Rule,
           io_ignore (run_subshot os target_dir),
           os_print os (StepHeader 3), os_print os Rule,
           run_parallel_commands os cmd_gau cmd_katana (lit ''GAU'') (lit ''Katana'') cwd,
           os_print os (StepHeader 4), os_print os Rule,
           io_ignore (run_piped_command os cmd_combine cwd),
           os_print os (StepHeader 5), os_print os Rule,
           io_ignore (run_piped_command os cmd_xss cwd),
           io_ignore (run_piped_command os cmd_kxss cwd),
           os_print os (StepHeader 6), os_print os Rule,
           io_ignore (run_piped_command os cmd_grep_js cwd),
           io_ignore (run_piped_command os cmd_httpx_js cwd),
           os_print os (StepHeader 7), os_print os Rule,
           (if contains templates_path (lit ''/path'')
            then io_seq [os_print os Rule, os_print os NucleiPathWarning, os_print os UpdateThePath,
                         os_print os SkippingNuclei, os_print os Rule]
            else io_ignore (run_piped_command os (nuclei_command templates_path) cwd)),
           os_print os Rule, os_print os ReconComplete, os_print os Rule])"

subsection \<open>What a run asks of the operating system\<close>

text \<open>
  An operating system that keeps, next to its world, the list of the prints, of the
  calls of \<open>subprocess.Popen\<close> (with the process launched, or \<open>None\<close> when the call
  raised) and of the thread pairs it was asked for, in order. It answers as the
  operating system it records.
\<close>

datatype os_call =
  Print console_line
  | Popen pystr "pystr option" "process option"
  | Threads pystr pystr "pystr option"

definition recording :: "'w os \<Rightarrow> ('w \<times> os_call list) os" where
  "recording os =
     \<lparr>os_exists = (\<lambda>path (w, calls). os_exists os path w),
      os_getsize = (\<lambda>path (w, calls). os_getsize os path w),
      os_which = (\<lambda>name (w, calls). os_which os name w),
      os_find_spec = (\<lambda>name (w, calls). os_find_spec os name w),
      os_print = (\<lambda>line (w, calls).
         case os_print os line w of (r, w') \<Rightarrow> (r, (w', calls @ [Print line]))),
      os_open = (\<lambda>path (w, calls). case os_open os path w of (r, w') \<Rightarrow> (r, (w', calls))),
      os_write = (\<lambda>path line (w, calls).
         case os_write os path line w of (r, w') \<Rightarrow> (r, (w', calls))),
      os_close = (\<lambda>path (w, calls). case os_close os path w of (r, w') \<Rightarrow> (r, (w', calls))),
      os_popen = (\<lambda>command cwd (w, calls).
         case os_popen os command cwd w of
           (r, w') \<Rightarrow>
             (r, (w', calls @ [Popen command cwd (case r of Inl e \<Rightarrow> None | Inr p \<Rightarrow> Some p)]))),
      os_threads = (\<lambda>cmd1 cmd2 cwd (w, calls).
         (os_threads os cmd1 cmd2 cwd w, calls @ [Threads cmd1 cmd2 cwd])),
      os_script_dir = os_script_dir os\<rparr>"

text \<open>
  The command lines handed to \<open>subprocess.Popen\<close> or to a thread, and the lines
  printed, in order.
\<close>

fun commands :: "os_call list \<Rightarrow> pystr list" where
  "commands [] = []"
| "commands (Print line # calls) = commands calls"
| "commands (Popen command cwd p # calls) = command # commands calls"
| "commands (Threads cmd1 cmd2 cwd # calls) = cmd1 # cmd2 # commands calls"

fun printed :: "os_call list \<Rightarrow> console_line list" where
  "printed [] = []"
| "printed (Print line # calls) = line # printed calls"
| "printed (Popen command cwd p # calls) = printed calls"
| "printed (Threads cmd1 cmd2 cwd # calls) = printed calls"

text \<open>The calls of \<open>subprocess.Popen\<close> with their arguments and outcome, in order.\<close>

fun popens :: "os_call list \<Rightarrow> (pystr \<times> pystr option \<times> process option) list" where
  "popens [] = []"
| "popens (Print line # calls) = popens calls"
| "popens (Popen command cwd p # calls) = (command, cwd, p) # popens calls"
| "popens (Threads cmd1 cmd2 cwd # calls) = popens calls"


text \<open>
  The lines that tell how far a run has come: those that \<open>run_recon\<close> prints itself,
  other than rules, and the lines that \<open>run_subshot\<close> prints when it skips.
\<close>

fun recon_line :: "console_line \<Rightarrow> bool" where
  "recon_line StartingWorkflow = True"
| "recon_line (StepHeader k) = True"
| "recon_line NoAliveSubdomains = True"
| "recon_line SubshotNotFound = True"
| "recon_line InstallSubshot = True"
| "recon_line PlaywrightNotInstalled = True"
| "recon_line InstallPlaywright = True"
| "recon_line AliveSubsNotFound = True"
| "recon_line AliveSubsEmpty = True"
| "recon_line NucleiPathWarning = True"
| "recon_line UpdateThePath = True"
| "recon_line SkippingNuclei = True"
| "recon_line ReconComplete = True"
| "recon_line line = False"

text \<open>Console prints never raise; closing a file never raises; no file operation raises.\<close>

definition prints_ok :: "'w os \<Rightarrow> bool" where
  "prints_ok os = (\<forall>line w. fst (os_print os line w) = Inr ())"

definition closes_ok :: "'w os \<Rightarrow> bool" where
  "closes_ok os = (\<forall>path w. fst (os_close os path w) = Inr ())"

definition files_ok :: "'w os \<Rightarrow> bool" where
  "files_ok os =
     ((\<forall>path w. fst (os_open os path w) = Inr ())
      \<and> (\<forall>path line w. fst (os_write os path line w) = Inr ())
      \<and> closes_ok os)"

text \<open>
  A statement \<open>emits\<close> command lines and lines when, from every world and whatever was
  recorded before, it raises nothing and adds calls with exactly those command lines
  and exactly those lines among its prints that tell how far the run has come.
\<close>

definition emits ::
  "('w \<times> os_call list \<Rightarrow> (exn + unit) \<times> 'w \<times> os_call list) \<Rightarrow> pystr list \<Rightarrow> console_line list \<Rightarrow> bool" where
  "emits m cs ls =
     (\<forall>w calls. \<exists>w' new. m (w, calls) = (Inr (), (w', calls @ new))
        \<and> commands new = cs \<and> filter recon_line (printed new) = ls)"


subsection \<open>An operating system for concrete runs\<close>

text \<open>
  A machine has files with their sizes, directories, and room for a new process or
  not. \<open>subshot\<close> is found on the search path when \<open>/usr/local/bin/subshot\<close> exists,
  and a module is found when its directory under \<open>site-packages\<close> exists. Prints and
  file operations succeed. \<open>Popen\<close> raises when there is no room for a process or the
  working directory does not exist. The
  command \<open>false\<close> returns 1; \<open>printf '\377'\<close> prints a byte that is not UTF-8 and
  returns 0; \<open>echo hello\<close> prints one line and returns 0; the commands of the pipeline
  are stand-ins that print nothing, create no file and return 0.
\<close>

record machine =
  m_files :: "(pystr \<times> nat) list"
  m_dirs :: "pystr list"
  m_room :: bool

definition cmd_printf_ff :: pystr where
  "cmd_printf_ff = lit ''printf '' @ [0x27, 0x5C] @ lit ''377'' @ [0x27]"

definition demo_process :: "pystr \<Rightarrow> process" where
  "demo_process command =
     (if command = lit ''false''
      then \<lparr>proc_output = [], proc_read_error = None, proc_returncode = 1\<rparr>
      else if command = cmd_printf_ff
      then \<lparr>proc_output = [],
            proc_read_error = Some (lit ''utf-8 codec cannot decode byte 0xff in position 0''),
            proc_returncode = 0\<rparr>
      else if command = lit ''echo hello''
      then \<lparr>proc_output = [lit ''hello'' @ [0x0A]], proc_read_error = None, proc_returncode = 0\<rparr>
      else \<lparr>proc_output = [], proc_read_error = None, proc_returncode = 0\<rparr>)"

definition demo_os :: "machine os" where
  "demo_os =
     \<lparr>os_exists = (\<lambda>path m. path \<in> set (map fst (m_files m)) \<or> path \<in> set (m_dirs m)),
      os_getsize = (\<lambda>path m. case map_of (m_files m) path of None \<Rightarrow> 0 | Some n \<Rightarrow> n),
      os_which = (\<lambda>name m.
         if lit ''/usr/local/bin/'' @ name \<in> set (map fst (m_files m))
         then Some (lit ''/usr/local/bin/'' @ name) else None),
      os_find_spec = (\<lambda>name m. Inr (lit ''site-packages/'' @ name \<in> set (m_dirs m))),
      os_print = (\<lambda>line m. (Inr (), m)),
      os_open = (\<lambda>path m. (Inr (), m\<lparr>m_files := (path, 0) # m_files m\<rparr>)),
      os_write = (\<lambda>path line m.
         (Inr (), m\<lparr>m_files := (path, (case map_of (m_files m) path of None \<Rightarrow> 0 | Some n \<Rightarrow> n) + length line) # m_files m\<rparr>)),
      os_close = (\<lambda>path m. (Inr (), m)),
      os_popen = (\<lambda>command cwd m.
         if \<not> m_room m then (Inl (lit ''[Errno 11] Resource temporarily unavailable''), m)
         else if (case cwd of None \<Rightarrow> False | Some d \<Rightarrow> d \<notin> set (m_dirs m))
         then (Inl (lit ''[Errno 2] No such file or directory''), m)
         else (Inr (demo_process command), m)),
      os_threads = (\<lambda>cmd1 cmd2 cwd m. m),
      os_script_dir = lit ''/opt/fastrec''\<rparr>"

text \<open>
  A machine with \<open>subshot\<close> and Playwright installed and the directory of a target,
  in which no list of alive subdomains has been written.
\<close>

definition demo_machine :: machine where
  "demo_machine =
     \<lparr>m_files = [(lit ''/usr/local/bin/subshot'', 4096)],
      m_dirs = [lit ''/tmp/example'', lit ''site-packages/playwright''],
      m_room = True\<rparr>"

text \<open>
  A machine on which every check of \<open>run_subshot\<close> passes and which has no room for
  a new process.
\<close>

definition busy_machine :: machine where
  "busy_machine =
     \<lparr>m_files = [(lit ''/usr/local/bin/subshot'', 4096), (lit ''/tmp/example/alive_subs.txt'', 12)],
      m_dirs = [lit ''/tmp/example'', lit ''site-packages/playwright''],
      m_room = False\<rparr>"

text \<open>The same operating system with its console closed: every print raises.\<close>

definition closed_console_os :: "machine os" where
  "closed_console_os = demo_os\<lparr>os_print := (\<lambda>line m. (Inl (lit ''[Errno 32] Broken pipe''), m))\<rparr>"


section \<open>Properties of the string operations\<close>

lemma strip_by_subset: "set (strip_by P s) \<subseteq> set s"
proof
  fix x assume "x \<in> set (strip_by P s)"
  then have "x \<in> set (dropWhile P (rev (dropWhile P s)))" by (simp add: strip_by_def)
  then have "x \<in> set (rev (dropWhile P s))" by (rule set_dropWhileD)
  then have "x \<in> set (dropWhile P s)" by simp
  then show "x \<in> set s" by (rule set_dropWhileD)
qed

lemma strip_by_hd:
  assumes ne: "strip_by P s \<noteq> []"
  shows "\<not> P (hd (strip_by P s))"
proof -
  define t where "t = dropWhile P s"
  define u where "u = strip_by P s"
  have "rev (takeWhile P (rev t) @ dropWhile P (rev t)) = t"
    by (simp only: takeWhile_dropWhile_id rev_rev_ident)
  then have t: "t = u @ rev (takeWhile P (rev t))"
    by (simp only: rev_append u_def strip_by_def t_def)
  from ne have "u \<noteq> []" by (simp add: u_def)
  with t have "hd t = hd u" by (metis hd_append2)
  moreover have "t \<noteq> []" using t \<open>u \<noteq> []\<close> by auto
  then have "\<not> P (hd t)" unfolding t_def by (rule hd_dropWhile)
  ultimately show ?thesis by (simp add: u_def)
qed

lemma strip_by_last:
  assumes ne: "strip_by P s \<noteq> []"
  shows "\<not> P (last (strip_by P s))"
proof -
  from ne have "dropWhile P (rev (dropWhile P s)) \<noteq> []" by (simp add: strip_by_def)
  then have "\<not> P (hd (dropWhile P (rev (dropWhile P s))))" by (rule hd_dropWhile)
  then show ?thesis using ne by (simp add: strip_by_def last_rev)
qed

lemma strip_by_fixed:
  assumes "s = [] \<or> (\<not> P (hd s) \<and> \<not> P (last s))"
  shows "strip_by P s = s"
proof (cases "s = []")
  case True
  then show ?thesis by (simp add: strip_by_def)
next
  case False
  with assms have h: "\<not> P (hd s)" and l: "\<not> P (last s)" by auto
  from h have "dropWhile P s = s" by (simp add: dropWhile_eq_self_iff)
  moreover from l False have "dropWhile P (rev s) = rev s"
    by (simp add: dropWhile_eq_self_iff hd_rev)
  ultimately show ?thesis by (simp add: strip_by_def)
qed

lemma strip_by_idem: "strip_by P (strip_by P s) = strip_by P s"
  by (rule strip_by_fixed) (use strip_by_hd strip_by_last in blast)

lemma startswith_single: "startswith s [c] = (s \<noteq> [] \<and> hd s = c)"
  by (cases s) (simp_all add: startswith_def)

lemma endswith_single: "endswith s [c] = (s \<noteq> [] \<and> last s = c)"
proof (cases s rule: rev_cases)
  case Nil
  then show ?thesis by (simp add: endswith_def)
next
  case (snoc ys y)
  then show ?thesis by (simp add: endswith_def)
qed

lemma replace_absent:
  "x \<in> set old \<Longrightarrow> x \<notin> set s \<Longrightarrow> replace old new s = s"
proof (induction old new s rule: replace.induct)
  case (1 old new)
  then show ?case by auto
next
  case (2 old new c cs)
  have ne: "old \<noteq> []" using 2 by auto
  have "\<not> startswith (c # cs) old"
  proof
    assume "startswith (c # cs) old"
    then have "set old \<subseteq> set (c # cs)" unfolding startswith_def by (metis set_take_subset)
    with 2 show False by auto
  qed
  with 2 ne show ?case by simp
qed

lemma re_sub_class_Nil: "re_sub_class cls repl [] = []"
  by (simp add: re_sub_class_def)

lemma re_sub_class_Cons:
  "re_sub_class cls repl (c # s) = (if cls c then repl else [c]) @ re_sub_class cls repl s"
  by (simp add: re_sub_class_def)

lemma re_sub_class_valid:
  assumes "\<forall>c\<in>set repl. \<not> cls c"
  shows "\<forall>c\<in>set (re_sub_class cls repl s). \<not> cls c"
proof (induction s)
  case Nil
  show ?case by (simp add: re_sub_class_Nil)
next
  case (Cons a s)
  show ?case
  proof (cases "cls a")
    case True
    with assms Cons show ?thesis by (simp add: re_sub_class_Cons ball_Un)
  next
    case False
    with Cons show ?thesis by (simp add: re_sub_class_Cons)
  qed
qed

lemma re_sub_class_fixed: "\<forall>c\<in>set s. \<not> cls c \<Longrightarrow> re_sub_class cls repl s = s"
  by (induction s) (simp_all add: re_sub_class_Nil re_sub_class_Cons)

lemma dropWhile_all_iff: "dropWhile P s = [] \<longleftrightarrow> (\<forall>c\<in>set s. P c)"
  by (simp add: dropWhile_eq_Nil_conv)

lemma strip_by_empty_iff: "strip_by P s = [] \<longleftrightarrow> (\<forall>c\<in>set s. P c)"
proof
  assume e: "strip_by P s = []"
  show "\<forall>c\<in>set s. P c"
  proof (rule ccontr)
    assume "\<not> (\<forall>c\<in>set s. P c)"
    then have n: "dropWhile P s \<noteq> []" by (simp add: dropWhile_all_iff)
    then have "\<not> P (hd (dropWhile P s))" by (rule hd_dropWhile)
    moreover from n have "hd (dropWhile P s) \<in> set (rev (dropWhile P s))" by simp
    ultimately have "dropWhile P (rev (dropWhile P s)) \<noteq> []"
      unfolding dropWhile_all_iff by blast
    with e show False by (simp add: strip_by_def)
  qed
next
  assume "\<forall>c\<in>set s. P c"
  then have d: "dropWhile P s = []" by (simp add: dropWhile_all_iff)
  show "strip_by P s = []" unfolding strip_by_def d by simp
qed

lemma strip_by_decomp: "\<exists>pre suf. s = pre @ strip_by P s @ suf \<and> (\<forall>c\<in>set pre. P c) \<and> (\<forall>c\<in>set suf. P c)"
proof -
  let ?t = "dropWhile P s"
  have 1: "s = takeWhile P s @ ?t" by simp
  have "rev (takeWhile P (rev ?t) @ dropWhile P (rev ?t)) = ?t"
    by (simp only: takeWhile_dropWhile_id rev_rev_ident)
  then have 2: "?t = strip_by P s @ rev (takeWhile P (rev ?t))"
    by (simp only: rev_append strip_by_def)
  have "s = takeWhile P s @ strip_by P s @ rev (takeWhile P (rev ?t))"
    using 1 2 by metis
  moreover have "\<forall>c\<in>set (takeWhile P s). P c" by (metis set_takeWhileD)
  moreover have "\<forall>c\<in>set (rev (takeWhile P (rev ?t))). P c"
    by (metis set_rev set_takeWhileD)
  ultimately show ?thesis by blast
qed

lemma startswith_drop_suffix:
  assumes p: "startswith (a @ suf) p" and np: "\<forall>c\<in>set p. \<not> P c" and sp: "\<forall>c\<in>set suf. P c"
  shows "startswith a p"
proof -
  let ?n = "length p"
  from p have e: "p = take ?n a @ take (?n - length a) suf"
    by (simp add: startswith_def)
  have "set (take (?n - length a) suf) \<subseteq> set p" by (subst (2) e) simp
  moreover have "set (take (?n - length a) suf) \<subseteq> set suf" by (rule set_take_subset)
  ultimately have "\<forall>c\<in>set (take (?n - length a) suf). False" using np sp by blast
  then have "take (?n - length a) suf = []" by (cases "take (?n - length a) suf") auto
  with e have "p = take ?n a" by simp
  then show ?thesis by (simp add: startswith_def)
qed

lemma startswith_strip:
  assumes p: "startswith x p" and np: "\<forall>c\<in>set p. \<not> isspace c" and ne: "p \<noteq> []"
  shows "startswith (strip x) p" and "strip x = x \<longleftrightarrow> \<not> isspace (last x)"
proof -
  from p ne obtain c cs where x: "x = c # cs" and c: "c = hd p"
    by (cases x; cases p) (auto simp: startswith_def)
  from c ne np have nc: "\<not> isspace c" by (cases p) auto
  obtain pre suf where d: "x = pre @ strip x @ suf"
    and pre: "\<forall>c\<in>set pre. isspace c" and suf: "\<forall>c\<in>set suf. isspace c"
    using strip_by_decomp[of x isspace] unfolding strip_def by blast
  have "pre = []"
  proof (cases pre)
    case Nil then show ?thesis .
  next
    case (Cons a as)
    with d x have "a = c" by simp
    with pre Cons nc show ?thesis by simp
  qed
  with d have d': "x = strip x @ suf" by simp
  have "startswith (strip x @ suf) p" using p d' by simp
  then show "startswith (strip x) p" using np suf by (rule startswith_drop_suffix)
  show "strip x = x \<longleftrightarrow> \<not> isspace (last x)"
  proof
    assume "strip x = x"
    moreover have "strip x \<noteq> [] \<Longrightarrow> \<not> isspace (last (strip x))"
      unfolding strip_def by (rule strip_by_last)
    ultimately show "\<not> isspace (last x)" using x by simp
  next
    assume "\<not> isspace (last x)"
    with nc x show "strip x = x" unfolding strip_def by (intro strip_by_fixed) simp
  qed
qed


section \<open>Properties of sanitize_filename\<close>

lemma hyphen_valid: "\<forall>c\<in>set (lit ''-''). \<not> invalid_filename_char c"
  by (simp add: lit_def invalid_filename_char_def isspace_def)

lemma sanitize_valid: "\<forall>c\<in>set (sanitize_filename s). \<not> invalid_filename_char c"
proof -
  let ?m = "re_sub_class invalid_filename_char (lit ''-'')
              (replace (lit ''http://'') [] (replace (lit ''https://'') [] s))"
  have "\<forall>c\<in>set ?m. \<not> invalid_filename_char c"
    by (rule re_sub_class_valid[OF hyphen_valid])
  moreover have "set (sanitize_filename s) \<subseteq> set ?m"
    by (simp only: sanitize_filename_def Let_def strip_chars_def strip_by_subset)
  ultimately show ?thesis by blast
qed

lemma sanitize_idem: "sanitize_filename (sanitize_filename s) = sanitize_filename s"
proof -
  define r where "r = sanitize_filename s"
  have v: "\<forall>c\<in>set r. \<not> invalid_filename_char c" unfolding r_def by (rule sanitize_valid)
  have "invalid_filename_char 0x3A" by (simp add: invalid_filename_char_def)
  with v have colon: "0x3A \<notin> set r" by blast
  have r1: "replace (lit ''https://'') [] r = r"
    by (rule replace_absent[of "0x3A"]) (simp_all add: lit_def colon)
  have r2: "replace (lit ''http://'') [] r = r"
    by (rule replace_absent[of "0x3A"]) (simp_all add: lit_def colon)
  have r3: "re_sub_class invalid_filename_char (lit ''-'') r = r"
    using v by (rule re_sub_class_fixed)
  have r4: "strip_chars r (lit ''.-'') = r"
    unfolding r_def sanitize_filename_def Let_def strip_chars_def by (rule strip_by_idem)
  show ?thesis
    unfolding r_def[symmetric]
    by (subst sanitize_filename_def) (simp only: Let_def r1 r2 r3 r4)
qed

lemma sanitize_ends:
  assumes "c = 0x2E \<or> c = 0x2D"
  shows "\<not> startswith (sanitize_filename s) [c]" and "\<not> endswith (sanitize_filename s) [c]"
proof -
  let ?P = "\<lambda>c. c \<in> set (lit ''.-'')"
  have s: "sanitize_filename s = strip_by ?P
      (re_sub_class invalid_filename_char (lit ''-'')
        (replace (lit ''http://'') [] (replace (lit ''https://'') [] s)))"
    by (simp only: sanitize_filename_def Let_def strip_chars_def)
  have P: "?P c" using assms by (auto simp: lit_def)
  have "sanitize_filename s \<noteq> [] \<Longrightarrow> \<not> ?P (hd (sanitize_filename s))"
    unfolding s by (rule strip_by_hd)
  with P show "\<not> startswith (sanitize_filename s) [c]"
    unfolding startswith_single by blast
  have "sanitize_filename s \<noteq> [] \<Longrightarrow> \<not> ?P (last (sanitize_filename s))"
    unfolding s by (rule strip_by_last)
  with P show "\<not> endswith (sanitize_filename s) [c]"
    unfolding endswith_single by blast
qed

lemma sanitize_filename_example:
  "sanitize_filename (lit ''https://a.b/c d..'') = lit ''a.b-c-d''"
  by (simp add: sanitize_filename_def lit_def startswith_def strip_chars_def strip_by_def
      re_sub_class_def invalid_filename_char_def isspace_def)

text \<open>
  C4. \<open>sanitize_filename\<close> is idempotent, and for every input its result contains
  neither \<open>/\<close> nor \<open>\\<close> and neither starts nor ends with a dot or a hyphen.
\<close>

theorem sanitize_filename_idempotent_clean:
  "sanitize_filename (sanitize_filename s) = sanitize_filename s
   \<and> 0x2F \<notin> set (sanitize_filename s) \<and> 0x5C \<notin> set (sanitize_filename s)
   \<and> \<not> startswith (sanitize_filename s) (lit ''.'')
   \<and> \<not> startswith (sanitize_filename s) (lit ''-'')
   \<and> \<not> endswith (sanitize_filename s) (lit ''.'')
   \<and> \<not> endswith (sanitize_filename s) (lit ''-'')"
proof -
  have "invalid_filename_char 0x2F" and "invalid_filename_char 0x5C"
    by (simp_all add: invalid_filename_char_def)
  with sanitize_valid[of s]
  have "0x2F \<notin> set (sanitize_filename s)" and "0x5C \<notin> set (sanitize_filename s)"
    by blast+
  moreover have "lit ''.'' = [0x2E]" and "lit ''-'' = [0x2D]" by (simp_all add: lit_def)
  ultimately show ?thesis
    using sanitize_idem[of s] sanitize_ends[of "0x2E" s] sanitize_ends[of "0x2D" s]
    by simp
qed

theorem sanitize_filename_idempotent_clean_witness:
  "sanitize_filename (lit ''https://a.b/c d..'') = lit ''a.b-c-d''
   \<and> sanitize_filename (lit ''a.b-c-d'') = lit ''a.b-c-d''
   \<and> 0x2F \<notin> set (lit ''a.b-c-d'') \<and> 0x5C \<notin> set (lit ''a.b-c-d'')
   \<and> \<not> startswith (lit ''a.b-c-d'') (lit ''.'')
   \<and> \<not> startswith (lit ''a.b-c-d'') (lit ''-'')
   \<and> \<not> endswith (lit ''a.b-c-d'') (lit ''.'')
   \<and> \<not> endswith (lit ''a.b-c-d'') (lit ''-'')"
  using sanitize_filename_idempotent_clean[of "lit ''https://a.b/c d..''"]
  by (simp only: sanitize_filename_example simp_thms)

section \<open>Properties of normalize_url\<close>

lemma normalize_url_idem: "normalize_url (normalize_url x) = normalize_url x"
proof -
  define t where "t = strip x"
  let ?starts = "\<lambda>s. startswith s (lit ''http://'') \<or> startswith s (lit ''https://'')"
  have st: "strip t = t" unfolding t_def strip_def by (rule strip_by_idem)
  show ?thesis
  proof (cases "?starts t")
    case True
    then have "normalize_url x = t" by (auto simp: normalize_url_def t_def[symmetric])
    moreover from True st have "normalize_url t = t" by (auto simp: normalize_url_def)
    ultimately show ?thesis by simp
  next
    case False
    define y where "y = lit ''https://'' @ t"
    from False have nx: "normalize_url x = y"
      by (simp add: normalize_url_def t_def[symmetric] y_def)
    have hd: "hd y = 104" by (simp add: y_def lit_def)
    have "\<not> isspace (last y)"
    proof (cases "t = []")
      case True
      then show ?thesis by (simp add: y_def lit_def isspace_def)
    next
      case False
      then have "\<not> isspace (last t)" unfolding t_def strip_def by (rule strip_by_last)
      with False show ?thesis by (simp add: y_def)
    qed
    moreover have "\<not> isspace (hd y)" by (simp add: hd isspace_def)
    ultimately have sy: "strip y = y" unfolding strip_def by (intro strip_by_fixed) simp
    have "startswith y (lit ''https://'')" by (simp add: startswith_def y_def)
    with sy have "normalize_url y = y" by (auto simp: normalize_url_def)
    with nx show ?thesis by simp
  qed
qed

lemma normalize_url_with_scheme:
  assumes "startswith x (lit ''http://'') \<or> startswith x (lit ''https://'')"
  shows "normalize_url x = strip x" and "normalize_url x = x \<longleftrightarrow> \<not> isspace (last x)"
proof -
  have nsp: "\<forall>c\<in>set (lit ''http://''). \<not> isspace c" "\<forall>c\<in>set (lit ''https://''). \<not> isspace c"
    by (simp_all add: lit_def isspace_def)
  have ne: "lit ''http://'' \<noteq> []" "lit ''https://'' \<noteq> []" by (simp_all add: lit_def)
  from assms have "startswith (strip x) (lit ''http://'') \<or> startswith (strip x) (lit ''https://'')"
    using startswith_strip(1) nsp ne by blast
  then show n: "normalize_url x = strip x" by (auto simp: normalize_url_def)
  from assms have "strip x = x \<longleftrightarrow> \<not> isspace (last x)"
    using startswith_strip(2) nsp ne by blast
  with n show "normalize_url x = x \<longleftrightarrow> \<not> isspace (last x)" by simp
qed

lemma normalize_url_example: "normalize_url (lit ''example.com'') = lit ''https://example.com''"
  by (simp add: normalize_url_def lit_def startswith_def strip_def strip_by_def isspace_def)

lemma normalize_url_http_example:
  "normalize_url (lit ''http://example.com'') = lit ''http://example.com''"
  by (simp add: normalize_url_def lit_def startswith_def strip_def strip_by_def isspace_def)

lemma normalize_url_trailing_example:
  "normalize_url (lit ''http://example.com '') = lit ''http://example.com''"
  by (simp add: normalize_url_def lit_def startswith_def strip_def strip_by_def isspace_def)

lemma strip_trailing_example: "strip (lit ''http://example.com '') = lit ''http://example.com''"
  by (simp add: lit_def strip_def strip_by_def isspace_def)

text \<open>
  C5 as stated fails: an input that starts with \<open>http://\<close> and ends with white space
  is not returned unchanged, because \<open>normalize_url\<close> strips its argument first.
\<close>

theorem normalize_url_unchanged_counterexample:
  "startswith (lit ''http://example.com '') (lit ''http://'')
   \<and> normalize_url (lit ''http://example.com '') \<noteq> lit ''http://example.com ''"
  by (simp add: normalize_url_trailing_example) (simp add: lit_def startswith_def)

text \<open>
  C5, amended. \<open>normalize_url\<close> maps \<open>example.com\<close> to \<open>https://example.com\<close> and
  leaves \<open>http://example.com\<close> unchanged; an input that starts with \<open>http://\<close> or
  \<open>https://\<close> is returned with its surrounding white space stripped, so it is returned
  unchanged exactly when it has no trailing white space; and \<open>normalize_url\<close> is
  idempotent.
\<close>

theorem normalize_url_scheme_idempotent:
  "normalize_url (lit ''example.com'') = lit ''https://example.com''
   \<and> normalize_url (lit ''http://example.com'') = lit ''http://example.com''
   \<and> (startswith x (lit ''http://'') \<or> startswith x (lit ''https://'')
        \<longrightarrow> normalize_url x = strip x \<and> (normalize_url x = x \<longleftrightarrow> \<not> isspace (last x)))
   \<and> normalize_url (normalize_url x) = normalize_url x"
  using normalize_url_example normalize_url_http_example normalize_url_idem[of x]
    normalize_url_with_scheme[of x]
  by blast

theorem normalize_url_scheme_idempotent_witness:
  "startswith (lit ''http://example.com '') (lit ''http://'')
   \<and> normalize_url (lit ''http://example.com '') = strip (lit ''http://example.com '')
   \<and> normalize_url (lit ''http://example.com '') = lit ''http://example.com''
   \<and> normalize_url (lit ''http://example.com'') = lit ''http://example.com''"
proof -
  have s: "startswith (lit ''http://example.com '') (lit ''http://'')"
    by (simp add: lit_def startswith_def)
  with normalize_url_scheme_idempotent[of "lit ''http://example.com ''"]
  show ?thesis
    by (simp add: normalize_url_trailing_example strip_trailing_example)
qed


section \<open>Properties of take_screenshot\<close>

lemma take_screenshot_loop_done:
  "\<not> attempt < retries \<Longrightarrow>
   take_screenshot_loop rt url p retries t attempt last_error w = ((False, last_error), attempt, w)"
  by (subst take_screenshot_loop.simps) simp

lemma take_screenshot_loop_step:
  "attempt < retries \<Longrightarrow>
   take_screenshot_loop rt url p retries t attempt last_error w =
     (case capture rt url p t w of
        (Captured, w') \<Rightarrow> ((True, None), attempt + 1, w')
      | (outcome, w') \<Rightarrow>
          take_screenshot_loop rt url p retries t (attempt + 1) (attempt_error rt t outcome) w')"
  by (subst take_screenshot_loop.simps)
     (simp add: attempt_error_def split: prod.splits attempt_outcome.splits)

lemma run_attempts_Suc:
  "run_attempts rt url p t (Suc n) w =
     (fst (capture rt url p t w) # fst (run_attempts rt url p t n (snd (capture rt url p t w))),
      snd (run_attempts rt url p t n (snd (capture rt url p t w))))"
  by (simp add: case_prod_beta)

lemma run_attempts_length: "length (fst (run_attempts rt url p t n w)) = n"
  by (induction n arbitrary: w) (simp_all add: run_attempts_Suc del: run_attempts.simps(2))

lemma take_screenshot_loop_char:
  "take_screenshot_loop rt url p retries t attempt last_error w = (r, n, w') \<Longrightarrow>
   os = fst (run_attempts rt url p t (nat (retries - attempt)) w) \<Longrightarrow>
   attempt \<le> n \<and> w' = snd (run_attempts rt url p t (nat (n - attempt)) w) \<and>
   (if Captured \<in> set os
    then r = (True, None) \<and> n = attempt + 1 + int (length (takeWhile (\<lambda>x. x \<noteq> Captured) os))
    else r = (False, if os = [] then last_error else attempt_error rt t (last os))
         \<and> n = max attempt retries)"
proof (induction rt url p retries t attempt last_error w arbitrary: os
       rule: take_screenshot_loop.induct)
  case (1 rt url p retries t attempt last_error w)
  show ?case
  proof (cases "attempt < retries")
    case False
    then have "nat (retries - attempt) = 0" by simp
    with 1(3,4) False show ?thesis by (simp add: take_screenshot_loop_done)
  next
    case True
    then have k: "nat (retries - attempt) = Suc (nat (retries - (attempt + 1)))" by simp
    obtain outcome w1 where c: "capture rt url p t w = (outcome, w1)" by (cases "capture rt url p t w")
    let ?os' = "fst (run_attempts rt url p t (nat (retries - (attempt + 1))) w1)"
    have os: "os = outcome # ?os'" using 1(4) k c by (simp split: prod.splits)
    show ?thesis
    proof (cases "outcome = Captured")
      case True
      with 1(3) \<open>attempt < retries\<close> c have r: "r = (True, None)" "n = attempt + 1" "w' = w1"
        by (simp_all add: take_screenshot_loop_step)
      then have "nat (n - attempt) = Suc 0" by simp
      then have "w' = snd (run_attempts rt url p t (nat (n - attempt)) w)"
        using c r by simp
      with r os True show ?thesis by simp
    next
      case nc: False
      with 1(3) True c have
        l: "take_screenshot_loop rt url p retries t (attempt + 1) (attempt_error rt t outcome) w1 = (r, n, w')"
        by (cases outcome) (simp_all add: take_screenshot_loop_step)
      have l': "take_screenshot_loop rt url p retries t (attempt + 1) (attempt_error rt t outcome) w1
          = take_screenshot_loop rt url p retries t (attempt + 1) last' w1"
        if "outcome = PlaywrightTimeout \<and> last' = Some (timeout_error rt t)
            \<or> (\<exists>e. outcome = Raised e \<and> last' = Some (simplify_error rt e))" for last'
        using that by (auto simp: attempt_error_def)
      have ih: "attempt + 1 \<le> n \<and> w' = snd (run_attempts rt url p t (nat (n - (attempt + 1))) w1) \<and>
        (if Captured \<in> set ?os'
         then r = (True, None) \<and> n = attempt + 1 + 1 + int (length (takeWhile (\<lambda>x. x \<noteq> Captured) ?os'))
         else r = (False, if ?os' = [] then attempt_error rt t outcome else attempt_error rt t (last ?os'))
             \<and> n = max (attempt + 1) retries)"
      proof (cases outcome)
        case Captured
        with nc show ?thesis by simp
      next
        case PlaywrightTimeout
        from "1.IH"(1)[OF True c[symmetric] PlaywrightTimeout _ refl] l PlaywrightTimeout
        show ?thesis by (simp add: attempt_error_def)
      next
        case (Raised e)
        from "1.IH"(2)[OF True c[symmetric] Raised _ refl] l Raised
        show ?thesis by (simp add: attempt_error_def)
      qed
      then have le: "attempt + 1 \<le> n" by simp
      then have kk: "nat (n - attempt) = Suc (nat (n - (attempt + 1)))" by simp
      have w: "w' = snd (run_attempts rt url p t (nat (n - attempt)) w)"
        using ih c unfolding kk by (simp split: prod.splits)
      from ih os nc True le w show ?thesis
        by (auto split: if_splits)
    qed
  qed
qed

lemma take_screenshot_char:
  assumes "take_screenshot rt url p retries t w = (r, n, w')"
    and "os = fst (run_attempts rt url p t (nat retries) w)"
  shows "0 \<le> n" and "w' = snd (run_attempts rt url p t (nat n) w)"
    and "Captured \<in> set os \<Longrightarrow>
          r = (True, None) \<and> n = 1 + int (length (takeWhile (\<lambda>x. x \<noteq> Captured) os))"
    and "Captured \<notin> set os \<Longrightarrow>
          r = (False, if os = [] then None else attempt_error rt t (last os)) \<and> n = max 0 retries"
  using take_screenshot_loop_char[of rt url p retries t 0 None w r n w' os] assms
  by (simp_all add: take_screenshot_def)

lemma takeWhile_shorter: "x \<in> set xs \<Longrightarrow> \<not> P x \<Longrightarrow> length (takeWhile P xs) < length xs"
  by (induction xs) auto

lemma timeout_error_nonempty: "timeout_error rt t \<noteq> []"
  by (simp add: timeout_error_def lit_def)

lemma simplify_error_empty: "simplify_error rt e = [] \<Longrightarrow> e = []"
  by (simp add: simplify_error_def lit_def split: if_splits)

lemma attempt_error_failed:
  "outcome \<noteq> Captured \<Longrightarrow>
   \<exists>reason. attempt_error rt t outcome = Some reason \<and> (reason = [] \<longrightarrow> outcome = Raised [])"
  by (cases outcome) (auto simp: attempt_error_def timeout_error_nonempty dest: simplify_error_empty)

lemma take_screenshot_negative_retries_run:
  "take_screenshot demo_runtime (lit ''https://example.com'') (lit ''shots/example.com.png'') (- 1) 30000 []
     = ((False, None), 0, [])"
  by (simp add: take_screenshot_def take_screenshot_loop_done)

lemma take_screenshot_empty_message_run:
  "take_screenshot demo_runtime (lit ''https://example.com'') (lit ''shots/example.com.png'') 1 30000
     [Raised []] = ((False, Some []), 1, [])"
  by (simp add: take_screenshot_def take_screenshot_loop_done take_screenshot_loop_step demo_runtime_def scripted_def
      attempt_error_def simplify_error_def ascii_lower_def lit_def)

lemma take_screenshot_tls_run:
  "take_screenshot demo_runtime (lit ''https://example.com'') (lit ''shots/example.com.png'') 1 30000
     [Raised (lit ''TLS handshake failed'')] = ((False, Some (lit ''TLS handshake failed'')), 1, [])"
  by (simp add: take_screenshot_def take_screenshot_loop_done take_screenshot_loop_step demo_runtime_def scripted_def
      attempt_error_def simplify_error_def ascii_lower_def lit_def startswith_def)

lemma take_screenshot_cert_run:
  "take_screenshot demo_runtime (lit ''https://example.com'') (lit ''shots/example.com.png'') 1 30000
     [Raised (lit ''Page.goto: net::ERR_CERT_AUTHORITY_INVALID at https://example.com/'')]
   = ((False, Some (lit ''Page.goto: net::ERR_CERT_AUTHORITY_INVALID at https://example.com/'')), 1, [])"
  by code_simp


lemma take_screenshot_two_failures_run:
  "take_screenshot demo_runtime (lit ''https://example.com'') (lit ''shots/example.com.png'') 2 30000
     [Raised (lit ''SSL: net::ERR_CONNECTION_REFUSED''), PlaywrightTimeout, Raised []]
   = ((False, Some (lit ''Timeout after 30.0s'')), 2, [Raised []])"
  by (simp add: take_screenshot_def take_screenshot_loop_done take_screenshot_loop_step demo_runtime_def scripted_def
      attempt_error_def timeout_error_def)  (simp add: lit_def)

lemma take_screenshot_refused_run:
  "take_screenshot demo_runtime (lit ''https://example.com'') (lit ''shots/example.com.png'') 1 30000
     [Raised (lit ''SSL: net::ERR_CONNECTION_REFUSED'')] = ((False, Some (lit ''Connection refused'')), 1, [])"
  by (simp add: take_screenshot_def take_screenshot_loop_done take_screenshot_loop_step demo_runtime_def scripted_def
      attempt_error_def simplify_error_def ascii_lower_def lit_def startswith_def)

lemma run_attempts_two_failures:
  "fst (run_attempts demo_runtime (lit ''https://example.com'') (lit ''shots/example.com.png'') 30000
     (nat 2) [Raised (lit ''SSL: net::ERR_CONNECTION_REFUSED''), PlaywrightTimeout, Raised []])
   = [Raised (lit ''SSL: net::ERR_CONNECTION_REFUSED''), PlaywrightTimeout]"
  by (simp add: numeral_2_eq_2 demo_runtime_def scripted_def)

text \<open>
  C3 as stated fails for a retry count below one. With \<open>retries = -1\<close> the loop body
  never runs: the number of attempts, 0, is not at most \<open>retries\<close>, and the reported
  error is \<open>None\<close>, the error of no attempt.
\<close>

theorem take_screenshot_no_attempt_counterexample:
  "take_screenshot demo_runtime (lit ''https://example.com'') (lit ''shots/example.com.png'') (- 1) 30000 []
     = ((False, None), 0, [])
   \<and> \<not> (0::int) \<le> - 1"
  by (simp add: take_screenshot_negative_retries_run)

text \<open>
  C3, amended. \<open>take_screenshot\<close> makes at most \<open>max(retries, 0)\<close> attempts, and the
  world it leaves is the one after exactly that many browser sessions. When
  \<open>retries\<close> is at least one and every attempt fails, all \<open>retries\<close> attempts are made
  and the result is \<open>(False, e)\<close> with \<open>e\<close> the error of the last attempt alone. When
  one of the first \<open>retries\<close> sessions succeeds, the result is \<open>(True, None)\<close> and the
  attempts stop with the first success.
\<close>

theorem take_screenshot_bounded_retries:
  assumes "take_screenshot rt url output_path retries timeout w = (result, attempts, w')"
    and "outcomes = fst (run_attempts rt url output_path timeout (nat retries) w)"
  shows "0 \<le> attempts \<and> attempts \<le> max 0 retries
    \<and> w' = snd (run_attempts rt url output_path timeout (nat attempts) w)
    \<and> (1 \<le> retries \<and> Captured \<notin> set outcomes \<longrightarrow>
          result = (False, attempt_error rt timeout (last outcomes))
          \<and> attempt_error rt timeout (last outcomes) \<noteq> None \<and> attempts = retries)
    \<and> (Captured \<in> set outcomes \<longrightarrow>
          result = (True, None)
          \<and> attempts = 1 + int (length (takeWhile (\<lambda>x. x \<noteq> Captured) outcomes)))"
proof -
  note c = take_screenshot_char[OF assms]
  have len: "length outcomes = nat retries" by (simp add: assms(2) run_attempts_length)
  have "attempts \<le> max 0 retries"
  proof (cases "Captured \<in> set outcomes")
    case True
    then have "length (takeWhile (\<lambda>x. x \<noteq> Captured) outcomes) < length outcomes"
      by (rule takeWhile_shorter) simp
    with c(3)[OF True] len show ?thesis by simp
  next
    case False
    with c(4) show ?thesis by simp
  qed
  moreover have "result = (False, attempt_error rt timeout (last outcomes))
      \<and> attempt_error rt timeout (last outcomes) \<noteq> None \<and> attempts = retries"
    if "1 \<le> retries" "Captured \<notin> set outcomes"
  proof -
    from that(1) len have ne: "outcomes \<noteq> []" by auto
    then have "last outcomes \<in> set outcomes" by simp
    with that(2) have "last outcomes \<noteq> Captured" by metis
    then have "attempt_error rt timeout (last outcomes) \<noteq> None"
      using attempt_error_failed[of "last outcomes" rt timeout] by auto
    with c(4)[OF that(2)] ne that(1) show ?thesis by simp
  qed
  ultimately show ?thesis using c(1,2,3) by blast
qed

theorem take_screenshot_bounded_retries_witness:
  "take_screenshot demo_runtime (lit ''https://example.com'') (lit ''shots/example.com.png'') 2 30000
     [Raised (lit ''SSL: net::ERR_CONNECTION_REFUSED''), PlaywrightTimeout, Raised []]
     = ((False, Some (lit ''Timeout after 30.0s'')), 2, [Raised []])
   \<and> (0::int) \<le> 2 \<and> (2::int) \<le> max 0 2
   \<and> attempt_error demo_runtime 30000 PlaywrightTimeout = Some (lit ''Timeout after 30.0s'')"
  using take_screenshot_bounded_retries[OF take_screenshot_two_failures_run run_attempts_two_failures[symmetric]]
  by (simp add: take_screenshot_two_failures_run)

text \<open>
  C10 as stated fails in its last part: an attempt that raises an exception with an
  empty text is a genuine failure, and its reason is the empty string.
\<close>

theorem take_screenshot_empty_reason_counterexample:
  "take_screenshot demo_runtime (lit ''https://example.com'') (lit ''shots/example.com.png'') 1 30000
     [Raised []] = ((False, Some []), 1, [])"
  by (rule take_screenshot_empty_message_run)

text \<open>
  C10, amended. With \<open>retries\<close> at most 0, \<open>take_screenshot\<close> starts no browser session
  (the world is unchanged and \<open>attempt\<close> stays 0) and returns \<open>(False, None)\<close>. A failure
  after at least one attempt carries a reason string instead of \<open>None\<close>, and that
  string is empty only when the last attempt raised an exception with an empty text.
\<close>

theorem take_screenshot_no_retries:
  "(retries \<le> 0 \<longrightarrow> take_screenshot rt url output_path retries timeout w = ((False, None), 0, w))
   \<and> (0 < retries \<and> take_screenshot rt url output_path retries timeout w = ((False, err), attempts, w')
        \<longrightarrow> (\<exists>reason. err = Some reason
              \<and> (reason = [] \<longrightarrow>
                   last (fst (run_attempts rt url output_path timeout (nat retries) w)) = Raised [])))"
proof -
  have "take_screenshot rt url output_path retries timeout w = ((False, None), 0, w)"
    if "retries \<le> 0"
    using that by (simp add: take_screenshot_def take_screenshot_loop_done)
  moreover have "\<exists>reason. err = Some reason
      \<and> (reason = [] \<longrightarrow>
           last (fst (run_attempts rt url output_path timeout (nat retries) w)) = Raised [])"
    if r: "0 < retries"
      and t: "take_screenshot rt url output_path retries timeout w = ((False, err), attempts, w')"
  proof -
    define os where "os = fst (run_attempts rt url output_path timeout (nat retries) w)"
    note c = take_screenshot_char[OF t os_def]
    have nc: "Captured \<notin> set os" using c(3) by auto
    have "length os = nat retries" by (simp add: os_def run_attempts_length)
    with r have ne: "os \<noteq> []" by auto
    then have "last os \<in> set os" by simp
    with nc have "last os \<noteq> Captured" by metis
    moreover from c(4)[OF nc] ne have "err = attempt_error rt timeout (last os)" by simp
    ultimately show ?thesis
      using attempt_error_failed[of "last os" rt timeout] unfolding os_def by simp
  qed
  ultimately show ?thesis by blast
qed

theorem take_screenshot_no_retries_witness:
  "take_screenshot demo_runtime (lit ''https://example.com'') (lit ''shots/example.com.png'') 0 30000
     [PlaywrightTimeout] = ((False, None), 0, [PlaywrightTimeout])
   \<and> (0::int) < 2
   \<and> take_screenshot demo_runtime (lit ''https://example.com'') (lit ''shots/example.com.png'') 2 30000
        [Raised (lit ''SSL: net::ERR_CONNECTION_REFUSED''), PlaywrightTimeout, Raised []]
        = ((False, Some (lit ''Timeout after 30.0s'')), 2, [Raised []])
   \<and> lit ''Timeout after 30.0s'' \<noteq> []"
proof -
  have "take_screenshot demo_runtime (lit ''https://example.com'') (lit ''shots/example.com.png'') 0 30000
     [PlaywrightTimeout] = ((False, None), 0, [PlaywrightTimeout])"
    using take_screenshot_no_retries[of 0 demo_runtime "lit ''https://example.com''"
        "lit ''shots/example.com.png''" 30000 "[PlaywrightTimeout]"]
    by simp
  moreover have "lit ''Timeout after 30.0s'' \<noteq> []" by (simp add: lit_def)
  ultimately show ?thesis using take_screenshot_two_failures_run by simp
qed

text \<open>
  C2 as stated fails for a text about TLS or a certificate that contains neither
  \<open>SSL\<close> nor \<open>certificate\<close>, such as Chromium's \<open>net::ERR_CERT_AUTHORITY_INVALID\<close>:
  it is reported as it is, not as \<open>SSL/Certificate error\<close>.
\<close>

theorem take_screenshot_tls_text_counterexample:
  "take_screenshot demo_runtime (lit ''https://example.com'') (lit ''shots/example.com.png'') 1 30000
     [Raised (lit ''TLS handshake failed'')] = ((False, Some (lit ''TLS handshake failed'')), 1, [])
   \<and> lit ''TLS handshake failed'' \<noteq> lit ''SSL/Certificate error''
   \<and> take_screenshot demo_runtime (lit ''https://example.com'') (lit ''shots/example.com.png'') 1 30000
       [Raised (lit ''Page.goto: net::ERR_CERT_AUTHORITY_INVALID at https://example.com/'')]
     = ((False, Some (lit ''Page.goto: net::ERR_CERT_AUTHORITY_INVALID at https://example.com/'')), 1, [])
   \<and> lit ''Page.goto: net::ERR_CERT_AUTHORITY_INVALID at https://example.com/''
       \<noteq> lit ''SSL/Certificate error''"
  by (simp add: take_screenshot_tls_run take_screenshot_cert_run) (simp add: lit_def)

text \<open>
  C2, amended. When \<open>take_screenshot\<close> fails after at least one attempt, the reason is
  a function of the last attempt's exception: Playwright's timeout gives
  \<open>Timeout after Ns\<close> with \<open>N\<close> the text of \<open>timeout/1000\<close>; for any other exception
  the text is tested in this order: it contains \<open>net::ERR_NAME_NOT_RESOLVED\<close>, then
  \<open>net::ERR_CONNECTION_REFUSED\<close>, then \<open>net::ERR_CONNECTION_TIMED_OUT\<close>, then
  \<open>SSL\<close> or, in lower case, \<open>certificate\<close>; a text that passes none of the tests is
  cut to its first 100 characters.
\<close>

theorem take_screenshot_error_classification:
  assumes "1 \<le> retries"
    and "take_screenshot rt url output_path retries timeout w = ((False, err), attempts, w')"
    and "outcomes = fst (run_attempts rt url output_path timeout (nat retries) w)"
  shows
    "(last outcomes = PlaywrightTimeout \<or> (\<exists>e. last outcomes = Raised e))
     \<and> (last outcomes = PlaywrightTimeout \<longrightarrow>
          err = Some (lit ''Timeout after '' @ float_str rt timeout @ lit ''s''))
     \<and> (\<forall>e. last outcomes = Raised e \<longrightarrow>
          (contains e (lit ''net::ERR_NAME_NOT_RESOLVED'') \<longrightarrow>
             err = Some (lit ''DNS resolution failed''))
          \<and> (\<not> contains e (lit ''net::ERR_NAME_NOT_RESOLVED'')
              \<and> contains e (lit ''net::ERR_CONNECTION_REFUSED'') \<longrightarrow>
             err = Some (lit ''Connection refused''))
          \<and> (\<not> contains e (lit ''net::ERR_NAME_NOT_RESOLVED'')
              \<and> \<not> contains e (lit ''net::ERR_CONNECTION_REFUSED'')
              \<and> contains e (lit ''net::ERR_CONNECTION_TIMED_OUT'') \<longrightarrow>
             err = Some (lit ''Connection timed out''))
          \<and> (\<not> contains e (lit ''net::ERR_NAME_NOT_RESOLVED'')
              \<and> \<not> contains e (lit ''net::ERR_CONNECTION_REFUSED'')
              \<and> \<not> contains e (lit ''net::ERR_CONNECTION_TIMED_OUT'')
              \<and> (contains e (lit ''SSL'') \<or> contains (str_lower rt e) (lit ''certificate'')) \<longrightarrow>
             err = Some (lit ''SSL/Certificate error''))
          \<and> (\<not> contains e (lit ''net::ERR_NAME_NOT_RESOLVED'')
              \<and> \<not> contains e (lit ''net::ERR_CONNECTION_REFUSED'')
              \<and> \<not> contains e (lit ''net::ERR_CONNECTION_TIMED_OUT'')
              \<and> \<not> contains e (lit ''SSL'') \<and> \<not> contains (str_lower rt e) (lit ''certificate'') \<longrightarrow>
             err = Some (take 100 e) \<and> length (take 100 e) \<le> 100))"
proof -
  note c = take_screenshot_char[OF assms(2,3)]
  have nc: "Captured \<notin> set outcomes" using c(3) by auto
  have "length outcomes = nat retries" by (simp add: assms(3) run_attempts_length)
  with assms(1) have ne: "outcomes \<noteq> []" by auto
  then have "last outcomes \<in> set outcomes" by simp
  with nc have lc: "last outcomes \<noteq> Captured" by metis
  from c(4)[OF nc] ne have err: "err = attempt_error rt timeout (last outcomes)" by simp
  show ?thesis
  proof (cases "last outcomes")
    case Captured
    with lc show ?thesis by simp
  next
    case PlaywrightTimeout
    then show ?thesis by (simp add: err attempt_error_def timeout_error_def)
  next
    case (Raised e)
    then show ?thesis by (simp add: err attempt_error_def simplify_error_def)
  qed
qed

lemma run_attempts_refused:
  "fst (run_attempts demo_runtime (lit ''https://example.com'') (lit ''shots/example.com.png'') 30000
     (nat 1) [Raised (lit ''SSL: net::ERR_CONNECTION_REFUSED'')])
   = [Raised (lit ''SSL: net::ERR_CONNECTION_REFUSED'')]"
  by (simp add: demo_runtime_def scripted_def)

lemma contains_refused_text:
  "\<not> contains (lit ''SSL: net::ERR_CONNECTION_REFUSED'') (lit ''net::ERR_NAME_NOT_RESOLVED'')"
  "contains (lit ''SSL: net::ERR_CONNECTION_REFUSED'') (lit ''net::ERR_CONNECTION_REFUSED'')"
  "contains (lit ''SSL: net::ERR_CONNECTION_REFUSED'') (lit ''SSL'')"
  by (simp_all add: lit_def startswith_def)

lemma take_screenshot_one_timeout_run:
  "take_screenshot demo_runtime (lit ''https://example.com'') (lit ''shots/example.com.png'') 1 30000
     [PlaywrightTimeout] = ((False, Some (lit ''Timeout after 30.0s'')), 1, [])"
  by code_simp

lemma run_attempts_one_timeout:
  "fst (run_attempts demo_runtime (lit ''https://example.com'') (lit ''shots/example.com.png'') 30000
     (nat 1) [PlaywrightTimeout]) = [PlaywrightTimeout]"
  by (simp add: demo_runtime_def scripted_def)

lemma demo_timeout_text:
  "lit ''Timeout after '' @ float_str demo_runtime 30000 @ lit ''s'' = lit ''Timeout after 30.0s''"
  by (simp add: demo_runtime_def lit_def)


theorem take_screenshot_error_classification_witness:
  "(1::int) \<le> 1
   \<and> take_screenshot demo_runtime (lit ''https://example.com'') (lit ''shots/example.com.png'') 1 30000
        [Raised (lit ''SSL: net::ERR_CONNECTION_REFUSED'')]
        = ((False, Some (lit ''Connection refused'')), 1, [])
   \<and> \<not> contains (lit ''SSL: net::ERR_CONNECTION_REFUSED'') (lit ''net::ERR_NAME_NOT_RESOLVED'')
   \<and> contains (lit ''SSL: net::ERR_CONNECTION_REFUSED'') (lit ''net::ERR_CONNECTION_REFUSED'')
   \<and> contains (lit ''SSL: net::ERR_CONNECTION_REFUSED'') (lit ''SSL'')
   \<and> take_screenshot demo_runtime (lit ''https://example.com'') (lit ''shots/example.com.png'') 1 30000
        [PlaywrightTimeout]
        = ((False, Some (lit ''Timeout after '' @ float_str demo_runtime 30000 @ lit ''s'')), 1, [])
   \<and> lit ''Timeout after '' @ float_str demo_runtime 30000 @ lit ''s'' = lit ''Timeout after 30.0s''"
proof -
  have "Some (lit ''Timeout after 30.0s'')
      = Some (lit ''Timeout after '' @ float_str demo_runtime 30000 @ lit ''s'')"
    using take_screenshot_error_classification[OF _ take_screenshot_one_timeout_run
        run_attempts_one_timeout[symmetric]]
    by simp
  then have t: "lit ''Timeout after '' @ float_str demo_runtime 30000 @ lit ''s''
      = lit ''Timeout after 30.0s''"
    by (simp only: option.inject)
  show ?thesis
    unfolding t
    using take_screenshot_refused_run take_screenshot_one_timeout_run contains_refused_text
    by (simp only: simp_thms order_refl)
qed

section \<open>Properties of load_list and process_subdomains\<close>

lemma strip_nonblank: "strip line \<noteq> [] \<longleftrightarrow> nonblank line"
  by (simp add: strip_def strip_by_empty_iff nonblank_def)

lemma load_list_lines:
  "read_file filepath = FileLines lines \<Longrightarrow>
   load_list read_file filepath = Inr (map strip (filter nonblank lines))"
  by (simp add: load_list_def strip_nonblank)

lemma announced_append: "announced (xs @ ys) = announced xs @ announced ys"
  by (induction xs rule: announced.induct) simp_all

lemma ok_lines_append: "ok_lines (xs @ ys) = ok_lines xs + ok_lines ys"
  by (simp add: ok_lines_def)

lemma fail_lines_append: "fail_lines (xs @ ys) = fail_lines xs + fail_lines ys"
  by (simp add: fail_lines_def)

lemma process_subdomains_loop_char:
  "process_subdomains_loop rt output_dir timeout n subdomains i s f out w = ((s', f'), out', w') \<Longrightarrow>
   s' + f' = s + f + length subdomains
   \<and> announced out' = announced out @ subdomains
   \<and> ok_lines out' + s = ok_lines out + s'
   \<and> fail_lines out' + f = fail_lines out + f'
   \<and> length out' = length out + 2 * length subdomains"
proof (induction subdomains arbitrary: i s f out w)
  case Nil
  then show ?case by simp
next
  case (Cons subdomain rest)
  let ?out = "out @ [Progress i n subdomain]"
  obtain success error attempts w1 where
    t: "take_screenshot rt (normalize_url subdomain)
          (path_join rt output_dir (sanitize_filename subdomain @ lit ''.png'')) 2 (timeout * 1000) w
        = ((success, error), attempts, w1)"
    by (metis prod.exhaust)
  show ?case
  proof (cases success)
    case True
    with Cons.prems t have
      "process_subdomains_loop rt output_dir timeout n rest (i + 1) (s + 1) f (?out @ [Ok]) w1
         = ((s', f'), out', w')"
      by (simp add: Let_def)
    from Cons.IH[OF this] show ?thesis
      by (simp add: announced_append ok_lines_append fail_lines_append)
         (simp add: ok_lines_def fail_lines_def)
  next
    case False
    with Cons.prems t have
      "process_subdomains_loop rt output_dir timeout n rest (i + 1) s (f + 1) (?out @ [Fail error]) w1
         = ((s', f'), out', w')"
      by (simp add: Let_def)
    from Cons.IH[OF this] show ?thesis
      by (simp add: announced_append ok_lines_append fail_lines_append)
         (simp add: ok_lines_def fail_lines_def)
  qed
qed

text \<open>
  C1. For a file read as \<open>lines\<close>, \<open>load_list\<close> returns the stripped non-blank lines
  in order, and \<open>process_subdomains\<close> on that list returns counts whose sum is the
  number of non-blank lines. Every entry is announced once, in input order, each
  announcement is followed by one \<open>OK\<close> or \<open>FAIL\<close> line, and the two counts are the
  numbers of those lines.
\<close>

theorem process_subdomains_counts:
  assumes "read_file filepath = FileLines lines"
  shows "\<exists>subdomains. load_list read_file filepath = Inr subdomains
     \<and> subdomains = map strip (filter nonblank lines)
     \<and> (case process_subdomains rt subdomains output_dir timeout w of
          ((success_count, fail_count), out, w') \<Rightarrow>
            success_count + fail_count = length (filter nonblank lines)
            \<and> announced out = subdomains
            \<and> ok_lines out = success_count \<and> fail_lines out = fail_count
            \<and> length out = 2 * length subdomains)"
proof -
  let ?subs = "map strip (filter nonblank lines)"
  obtain s f out w' where
    p: "process_subdomains rt ?subs output_dir timeout w = ((s, f), out, w')"
    by (metis prod.exhaust)
  then have "process_subdomains_loop rt output_dir timeout (length ?subs) ?subs 1 0 0 [] w
      = ((s, f), out, w')"
    by (simp add: process_subdomains_def)
  from process_subdomains_loop_char[OF this]
  have "s + f = length (filter nonblank lines) \<and> announced out = ?subs
      \<and> ok_lines out = s \<and> fail_lines out = f \<and> length out = 2 * length ?subs"
    by (simp add: ok_lines_def fail_lines_def)
  with p load_list_lines[of read_file filepath lines] assms show ?thesis by simp
qed

lemma demo_lines_loaded: "map strip (filter nonblank demo_lines) = [lit ''a.example.com'', lit ''b.example.com'']"
  by (simp add: demo_lines_def nonblank_def strip_def strip_by_def isspace_def lit_def)

lemma normalize_url_a: "normalize_url (lit ''a.example.com'') = lit ''https://a.example.com''"
  by (simp add: normalize_url_def lit_def startswith_def strip_def strip_by_def isspace_def)
lemma normalize_url_b: "normalize_url (lit ''b.example.com'') = lit ''https://b.example.com''"
  by (simp add: normalize_url_def lit_def startswith_def strip_def strip_by_def isspace_def)
lemma sanitize_filename_a: "sanitize_filename (lit ''a.example.com'') = lit ''a.example.com''"
  by (simp add: sanitize_filename_def lit_def startswith_def strip_chars_def strip_by_def
      re_sub_class_def invalid_filename_char_def isspace_def)
lemma sanitize_filename_b: "sanitize_filename (lit ''b.example.com'') = lit ''b.example.com''"
  by (simp add: sanitize_filename_def lit_def startswith_def strip_chars_def strip_by_def
      re_sub_class_def invalid_filename_char_def isspace_def)

lemma take_screenshot_first_success_run:
  "take_screenshot demo_runtime url p 2 30000 [Captured, PlaywrightTimeout, PlaywrightTimeout]
     = ((True, None), 1, [PlaywrightTimeout, PlaywrightTimeout])"
  by (simp add: take_screenshot_def take_screenshot_loop_done take_screenshot_loop_step demo_runtime_def scripted_def)

lemma take_screenshot_two_timeouts_run:
  "take_screenshot demo_runtime url p 2 30000 [PlaywrightTimeout, PlaywrightTimeout]
     = ((False, Some (lit ''Timeout after 30.0s'')), 2, [])"
  by (simp add: take_screenshot_def take_screenshot_loop_done take_screenshot_loop_step demo_runtime_def scripted_def
      attempt_error_def timeout_error_def) (simp add: lit_def)

lemma process_subdomains_demo_run:
  "process_subdomains demo_runtime [lit ''a.example.com'', lit ''b.example.com''] (lit ''screenshots'') 30
     [Captured, PlaywrightTimeout, PlaywrightTimeout]
   = ((1, 1),
      [Progress 1 2 (lit ''a.example.com''), Ok,
       Progress 2 2 (lit ''b.example.com''), Fail (Some (lit ''Timeout after 30.0s''))],
      [])"
  by (simp add: process_subdomains_def Let_def take_screenshot_first_success_run take_screenshot_two_timeouts_run)

theorem process_subdomains_counts_witness:
  "demo_read_file (lit ''alive_subs.txt'') = FileLines demo_lines
   \<and> load_list demo_read_file (lit ''alive_subs.txt'') = Inr [lit ''a.example.com'', lit ''b.example.com'']
   \<and> process_subdomains demo_runtime [lit ''a.example.com'', lit ''b.example.com''] (lit ''screenshots'') 30
        [Captured, PlaywrightTimeout, PlaywrightTimeout]
      = ((1, 1),
         [Progress 1 2 (lit ''a.example.com''), Ok,
          Progress 2 2 (lit ''b.example.com''), Fail (Some (lit ''Timeout after 30.0s''))],
         [])
   \<and> (1::nat) + 1 = length (filter nonblank demo_lines)"
proof -
  have r: "demo_read_file (lit ''alive_subs.txt'') = FileLines demo_lines"
    by (simp add: demo_read_file_def)
  from process_subdomains_counts[of demo_read_file "lit ''alive_subs.txt''" demo_lines
      demo_runtime "lit ''screenshots''" 30 "[Captured, PlaywrightTimeout, PlaywrightTimeout]"]
  show ?thesis
    by (simp add: r demo_lines_loaded process_subdomains_demo_run)
qed

section \<open>Properties of run_command\<close>

subsection \<open>The recorded calls\<close>

lemmas io_defs = io_return_def io_raise_def io_bind_def io_then_def io_try_def io_ignore_def

lemma commands_append: "commands (xs @ ys) = commands xs @ commands ys"
  by (induction xs rule: commands.induct) simp_all

lemma printed_append: "printed (xs @ ys) = printed xs @ printed ys"
  by (induction xs rule: printed.induct) simp_all

lemma recording_queries:
  "os_exists (recording os) path (w, calls) = os_exists os path w"
  "os_getsize (recording os) path (w, calls) = os_getsize os path w"
  "os_which (recording os) name (w, calls) = os_which os name w"
  "os_find_spec (recording os) name (w, calls) = os_find_spec os name w"
  "os_script_dir (recording os) = os_script_dir os"
  by (simp_all add: recording_def)

lemma recording_print:
  "os_print (recording os) line (w, calls)
     = (fst (os_print os line w), (snd (os_print os line w), calls @ [Print line]))"
  by (simp add: recording_def case_prod_beta)

lemma recording_files:
  "os_open (recording os) path (w, calls) = (fst (os_open os path w), (snd (os_open os path w), calls))"
  "os_write (recording os) path line (w, calls)
     = (fst (os_write os path line w), (snd (os_write os path line w), calls))"
  "os_close (recording os) path (w, calls) = (fst (os_close os path w), (snd (os_close os path w), calls))"
  by (simp_all add: recording_def case_prod_beta)

lemma recording_popen:
  "os_popen (recording os) command cwd (w, calls)
     = (fst (os_popen os command cwd w),
        (snd (os_popen os command cwd w),
         calls @ [Popen command cwd (case fst (os_popen os command cwd w) of
                                       Inl e \<Rightarrow> None | Inr p \<Rightarrow> Some p)]))"
  by (simp add: recording_def case_prod_beta)

lemma recording_threads:
  "os_threads (recording os) cmd1 cmd2 cwd (w, calls)
     = (os_threads os cmd1 cmd2 cwd w, calls @ [Threads cmd1 cmd2 cwd])"
  by (simp add: recording_def)

lemma recording_checks:
  "check_subshot_available (recording os) (w, calls) = check_subshot_available os w"
  "check_playwright_installed (recording os) (w, calls) = check_playwright_installed os w"
  by (simp_all add: check_subshot_available_def check_playwright_installed_def recording_queries
      Let_def)

lemma print_ok: "prints_ok os \<Longrightarrow> fst (os_print os line w) = Inr ()"
  by (simp add: prints_ok_def)

text \<open>
  What a statement adds to the record of calls, whatever it returns: reading the output
  of a process launches nothing.
\<close>

lemma stream_lines_adds:
  "\<exists>r w' new. stream_lines (recording os) file_handle lines (w, calls) = (r, (w', calls @ new))
     \<and> commands new = [] \<and> filter recon_line (printed new) = []
     \<and> (prints_ok os \<and> (file_handle = None \<or> files_ok os) \<longrightarrow> r = Inr ())"
proof (induction lines arbitrary: w calls)
  case Nil
  show ?case by (simp add: io_defs)
next
  case (Cons line lines)
  let ?p = "os_print os (OutputLine line) w"
  show ?case
  proof (cases "fst ?p")
    case (Inl e)
    then have "stream_lines (recording os) file_handle (line # lines) (w, calls)
        = (Inl e, (snd ?p, calls @ [Print (OutputLine line)]))"
      by (simp add: io_then_def recording_print)
    moreover from Inl have "\<not> prints_ok os"
      using print_ok[of os "OutputLine line" w] by auto
    ultimately show ?thesis by simp
  next
    case (Inr u)
    let ?c1 = "calls @ [Print (OutputLine line)]"
    let ?wr = "(case file_handle of None \<Rightarrow> io_return () | Some f \<Rightarrow> os_write (recording os) f line)
                 (snd ?p, ?c1)"
    obtain r1 w1 where wr: "?wr = (r1, (w1, ?c1))"
      and r1: "file_handle = None \<or> files_ok os \<Longrightarrow> r1 = Inr ()"
      by (cases file_handle) (auto simp: io_defs recording_files files_ok_def)
    show ?thesis
    proof (cases r1)
      case (Inl e)
      with Inr wr have "stream_lines (recording os) file_handle (line # lines) (w, calls)
          = (Inl e, (w1, ?c1))"
        by (simp add: io_then_def recording_print)
      moreover have "\<not> (file_handle = None \<or> files_ok os)"
      proof
        assume "file_handle = None \<or> files_ok os"
        then have "r1 = Inr ()" by (rule r1)
        with Inl show False by simp
      qed
      ultimately show ?thesis by simp
    next
      case Inr2: (Inr u2)
      from Cons.IH[of w1 ?c1] obtain r w' new where
        ih: "stream_lines (recording os) file_handle lines (w1, ?c1) = (r, (w', ?c1 @ new))"
          "commands new = []" "filter recon_line (printed new) = []"
          "prints_ok os \<and> (file_handle = None \<or> files_ok os) \<longrightarrow> r = Inr ()"
        by blast
      from Inr wr Inr2 ih(1) have "stream_lines (recording os) file_handle (line # lines) (w, calls)
          = (r, (w', calls @ (Print (OutputLine line) # new)))"
        by (simp add: io_then_def recording_print)
      with ih(2,3,4) show ?thesis by simp
    qed
  qed
qed

lemma popens_append: "popens (xs @ ys) = popens xs @ popens ys"
  by (induction xs rule: popens.induct) simp_all


lemma read_output_adds:
  "\<exists>r w' new. read_output (recording os) p file_handle (w, calls) = (r, (w', calls @ new))
     \<and> commands new = [] \<and> filter recon_line (printed new) = []
     \<and> (proc_read_error p \<noteq> None \<longrightarrow> r \<noteq> Inr ())
     \<and> (prints_ok os \<and> (file_handle = None \<or> files_ok os) \<and> proc_read_error p = None
          \<longrightarrow> r = Inr ())"
proof -
  obtain r w' new where
    s: "stream_lines (recording os) file_handle (proc_output p) (w, calls) = (r, (w', calls @ new))"
      "commands new = []" "filter recon_line (printed new) = []"
      "prints_ok os \<and> (file_handle = None \<or> files_ok os) \<longrightarrow> r = Inr ()"
    using stream_lines_adds[of os file_handle "proc_output p" w calls] by blast
  show ?thesis
  proof (cases r)
    case (Inl e)
    with s(1) have "read_output (recording os) p file_handle (w, calls) = (Inl e, (w', calls @ new))"
      by (simp add: read_output_def io_then_def)
    with s(2,3,4) Inl show ?thesis by simp
  next
    case (Inr u)
    show ?thesis
    proof (cases "proc_read_error p")
      case None
      with s(1) Inr have "read_output (recording os) p file_handle (w, calls)
          = (Inr (), (w', calls @ new))"
        by (simp add: read_output_def io_then_def io_return_def)
      with s(2,3) None show ?thesis by simp
    next
      case (Some e)
      with s(1) Inr have "read_output (recording os) p file_handle (w, calls)
          = (Inl e, (w', calls @ new))"
        by (simp add: read_output_def io_then_def io_raise_def)
      with s(2,3) Some show ?thesis by simp
    qed
  qed
qed



subsection \<open>The result of run_command\<close>






lemma demo_os_ok: "prints_ok demo_os" "closes_ok demo_os" "files_ok demo_os"
  by (simp_all add: prints_ok_def closes_ok_def files_ok_def demo_os_def)










section \<open>Properties of run_recon\<close>

subsection \<open>Statements that emit\<close>

text \<open>When prints do not raise, a print adds its line to the record and goes on.\<close>

lemma recording_print_ok:
  "prints_ok os \<Longrightarrow>
   os_print (recording os) line (w, calls) = (Inr (), (snd (os_print os line w), calls @ [Print line]))"
  by (simp add: recording_print print_ok)

lemma io_then_print_ok:
  "prints_ok os \<Longrightarrow>
   io_then (os_print (recording os) line) k (w, calls)
     = k (snd (os_print os line w), calls @ [Print line])"
  by (simp add: io_then_def recording_print_ok)

lemma run_piped_command_adds:
  assumes ok: "prints_ok os"
  shows "\<exists>b w' new. run_piped_command (recording os) command cwd (w, calls) = (Inr b, (w', calls @ new))
     \<and> commands new = [command] \<and> filter recon_line (printed new) = []"
proof -
  let ?w3 = "snd (os_print os Rule (snd (os_print os (Running command) (snd (os_print os Rule w)))))"
  let ?c3 = "calls @ [Print Rule, Print (Running command), Print Rule]"
  let ?body = "io_bind (os_popen (recording os) command cwd) (\<lambda>process.
                   io_then (read_output (recording os) process None)
                     (io_then (if proc_returncode process \<noteq> 0
                               then os_print (recording os) (ExitedWithCode (proc_returncode process))
                               else io_return ())
                        (io_then (os_print (recording os) Completed) (io_return True))))"
  let ?handler = "\<lambda>e. io_then (os_print (recording os) (ErrorRunningCommand e)) (io_return False)"
  have run: "run_piped_command (recording os) command cwd (w, calls) = io_try ?body ?handler (?w3, ?c3)"
    by (simp add: run_piped_command_def io_then_print_ok[OF ok])
  have handler: "?handler e (w1, cs)
      = (Inr False, (snd (os_print os (ErrorRunningCommand e) w1), cs @ [Print (ErrorRunningCommand e)]))"
    for e w1 cs
    by (simp add: io_then_print_ok[OF ok] io_return_def)
  show ?thesis
  proof (cases "fst (os_popen os command cwd ?w3)")
    case (Inl e)
    then have "?body (?w3, ?c3) = (Inl e, (snd (os_popen os command cwd ?w3), ?c3 @ [Popen command cwd None]))"
      by (simp add: io_bind_def recording_popen)
    then have "run_piped_command (recording os) command cwd (w, calls)
        = ?handler e (snd (os_popen os command cwd ?w3), ?c3 @ [Popen command cwd None])"
      by (simp add: run io_try_def)
    then show ?thesis by (auto simp: handler)
  next
    case (Inr p)
    let ?w4 = "snd (os_popen os command cwd ?w3)"
    let ?c4 = "?c3 @ [Popen command cwd (Some p)]"
    obtain r1 w5 new where
      ro: "read_output (recording os) p None (?w4, ?c4) = (r1, (w5, ?c4 @ new))"
        "commands new = []" "filter recon_line (printed new) = []"
      using read_output_adds[of os p None ?w4 ?c4] by blast
    show ?thesis
    proof (cases r1)
      case (Inl e)
      with Inr ro(1) have "?body (?w3, ?c3) = (Inl e, (w5, ?c3 @ (Popen command cwd (Some p) # new)))"
        by (simp add: io_bind_def recording_popen io_then_def)
      then have "run_piped_command (recording os) command cwd (w, calls)
          = ?handler e (w5, ?c3 @ (Popen command cwd (Some p) # new))"
        by (simp add: run io_try_def)
      with ro(2,3) show ?thesis by (auto simp: handler commands_append printed_append)
    next
      case r1: (Inr u)
      with Inr ro(1) have "\<exists>w6 new2. ?body (?w3, ?c3) = (Inr True, (w6, ?c4 @ new @ new2))
          \<and> commands new2 = [] \<and> filter recon_line (printed new2) = []"
        by (simp add: io_bind_def recording_popen io_then_def recording_print_ok[OF ok] io_return_def)
      then obtain w6 new2 where b: "?body (?w3, ?c3) = (Inr True, (w6, ?c4 @ new @ new2))"
        "commands new2 = []" "filter recon_line (printed new2) = []" by blast
      from b(1) have "run_piped_command (recording os) command cwd (w, calls)
          = (Inr True, (w6, ?c4 @ new @ new2))"
        by (simp add: run io_try_def)
      with ro(2,3) b(2,3) show ?thesis by (auto simp: commands_append printed_append)
    qed
  qed
qed

lemma emits_print:
  "prints_ok os \<Longrightarrow>
   emits (os_print (recording os) line) [] (if recon_line line then [line] else [])"
  by (simp add: emits_def recording_print_ok)

lemma emits_piped:
  assumes "prints_ok os"
  shows "emits (io_ignore (run_piped_command (recording os) command cwd)) [command] []"
  unfolding emits_def
proof (intro allI)
  fix w calls
  from run_piped_command_adds[OF assms, of command cwd w calls]
  obtain b w' new where "run_piped_command (recording os) command cwd (w, calls) = (Inr b, (w', calls @ new))"
    "commands new = [command]" "filter recon_line (printed new) = []" by blast
  then show "\<exists>w' new. io_ignore (run_piped_command (recording os) command cwd) (w, calls)
      = (Inr (), w', calls @ new) \<and> commands new = [command] \<and> filter recon_line (printed new) = []"
    by (simp add: io_ignore_def)
qed

lemma emits_parallel:
  "prints_ok os \<Longrightarrow>
   emits (run_parallel_commands (recording os) cmd1 cmd2 label1 label2 cwd) [cmd1, cmd2] []"
  by (simp add: emits_def run_parallel_commands_def recording_print_ok recording_threads)

lemma emits_Nil: "emits (io_seq []) [] []"
  by (simp add: emits_def)

lemma emits_Cons:
  assumes m: "emits m cs1 ls1" and ms: "emits (io_seq ms) cs2 ls2"
  shows "emits (io_seq (m # ms)) (cs1 @ cs2) (ls1 @ ls2)"
  unfolding emits_def
proof (intro allI)
  fix w calls
  from m obtain w1 new1 where 1: "m (w, calls) = (Inr (), (w1, calls @ new1))"
    "commands new1 = cs1" "filter recon_line (printed new1) = ls1"
    unfolding emits_def by blast
  from ms obtain w2 new2 where 2: "io_seq ms (w1, calls @ new1) = (Inr (), (w2, (calls @ new1) @ new2))"
    "commands new2 = cs2" "filter recon_line (printed new2) = ls2"
    unfolding emits_def by blast
  from 1 2 show "\<exists>w' new. io_seq (m # ms) (w, calls) = (Inr (), w', calls @ new)
      \<and> commands new = cs1 @ cs2 \<and> filter recon_line (printed new) = ls1 @ ls2"
    by (simp add: commands_append printed_append)
qed

lemma emits_eq: "emits m cs' ls' \<Longrightarrow> cs' = cs \<Longrightarrow> ls' = ls \<Longrightarrow> emits m cs ls"
  by simp

lemma emits_if:
  "(c \<Longrightarrow> emits a cs1 ls1) \<Longrightarrow> (\<not> c \<Longrightarrow> emits b cs2 ls2) \<Longrightarrow>
   emits (if c then a else b) (if c then cs1 else cs2) (if c then ls1 else ls2)"
  by simp

lemma io_seq_append:
  "io_seq (xs @ ys) W = (case io_seq xs W of (Inl e, W') \<Rightarrow> (Inl e, W') | (Inr u, W') \<Rightarrow> io_seq ys W')"
  by (induction xs arbitrary: W) (auto split: prod.splits sum.splits)

subsection \<open>run_subshot\<close>

text \<open>
  The four checks in their order, each with the lines it prints; when all pass,
  \<open>subprocess.Popen\<close> is called once, with the command of subshot.
\<close>

lemma run_subshot_skip:
  assumes ok: "prints_ok os"
  shows "\<not> truthy (check_subshot_available os w) \<Longrightarrow>
      \<exists>w'. run_subshot (recording os) target_dir (w, calls)
        = (Inr False, (w', calls @ [Print SubshotNotFound, Print InstallSubshot]))"
    and "truthy (check_subshot_available os w) \<Longrightarrow> \<not> check_playwright_installed os w \<Longrightarrow>
      \<exists>w'. run_subshot (recording os) target_dir (w, calls)
        = (Inr False, (w', calls @ [Print PlaywrightNotInstalled, Print InstallPlaywright]))"
    and "truthy (check_subshot_available os w) \<Longrightarrow> check_playwright_installed os w \<Longrightarrow>
      \<not> os_exists os (os_path_join target_dir (lit ''alive_subs.txt'')) w \<Longrightarrow>
      \<exists>w'. run_subshot (recording os) target_dir (w, calls)
        = (Inr False, (w', calls @ [Print AliveSubsNotFound]))"
    and "truthy (check_subshot_available os w) \<Longrightarrow> check_playwright_installed os w \<Longrightarrow>
      os_exists os (os_path_join target_dir (lit ''alive_subs.txt'')) w \<Longrightarrow>
      os_getsize os (os_path_join target_dir (lit ''alive_subs.txt'')) w = 0 \<Longrightarrow>
      \<exists>w'. run_subshot (recording os) target_dir (w, calls)
        = (Inr False, (w', calls @ [Print AliveSubsEmpty]))"
  by (simp_all add: run_subshot_def Let_def recording_checks recording_queries
      io_then_print_ok[OF ok] io_return_def)

lemma run_subshot_launch:
  assumes ok: "prints_ok os"
    and checks: "truthy (check_subshot_available os w)" "check_playwright_installed os w"
      "os_exists os (os_path_join target_dir (lit ''alive_subs.txt'')) w"
      "os_getsize os (os_path_join target_dir (lit ''alive_subs.txt'')) w \<noteq> 0"
  shows "\<exists>b w' new p. run_subshot (recording os) target_dir (w, calls) = (Inr b, (w', calls @ new))
     \<and> check_subshot_available os w = Some p
     \<and> popens new \<noteq> []
     \<and> commands new = [subshot_command p] \<and> filter recon_line (printed new) = []"
proof -
  from checks(1) obtain p where p: "check_subshot_available os w = Some p"
    by (auto simp: truthy_def split: option.splits)
  let ?command = "subshot_command p"
  let ?cwd = "Some target_dir"
  let ?w3 = "snd (os_print os Rule (snd (os_print os RunningSubshot (snd (os_print os Rule w)))))"
  let ?c3 = "calls @ [Print Rule, Print RunningSubshot, Print Rule]"
  let ?body = "io_bind (os_popen (recording os) ?command ?cwd) (\<lambda>process.
                   io_then (read_output (recording os) process None)
                     (io_then (os_print (recording os) ScreenshotsCompleted) (io_return True)))"
  let ?handler = "\<lambda>e. io_then (os_print (recording os) (ErrorRunningSubshot e)) (io_return False)"
  have run: "run_subshot (recording os) target_dir (w, calls) = io_try ?body ?handler (?w3, ?c3)"
    using checks
    by (simp add: run_subshot_def Let_def recording_checks recording_queries p
        io_then_print_ok[OF ok])
  have handler: "?handler e (w1, cs)
      = (Inr False, (snd (os_print os (ErrorRunningSubshot e) w1), cs @ [Print (ErrorRunningSubshot e)]))"
    for e w1 cs
    by (simp add: io_then_print_ok[OF ok] io_return_def)
  have "\<exists>b w' new. run_subshot (recording os) target_dir (w, calls) = (Inr b, (w', calls @ new))
     \<and> popens new \<noteq> []
     \<and> commands new = [?command] \<and> filter recon_line (printed new) = []"
  proof (cases "fst (os_popen os ?command ?cwd ?w3)")
    case (Inl e)
    then have "?body (?w3, ?c3) = (Inl e, (snd (os_popen os ?command ?cwd ?w3), ?c3 @ [Popen ?command ?cwd None]))"
      by (simp add: io_bind_def recording_popen)
    then have "run_subshot (recording os) target_dir (w, calls)
        = ?handler e (snd (os_popen os ?command ?cwd ?w3), ?c3 @ [Popen ?command ?cwd None])"
      by (simp add: run io_try_def)
    then show ?thesis by (auto simp: handler)
  next
    case (Inr pr)
    let ?w4 = "snd (os_popen os ?command ?cwd ?w3)"
    let ?c4 = "?c3 @ [Popen ?command ?cwd (Some pr)]"
    obtain r1 w5 new where
      ro: "read_output (recording os) pr None (?w4, ?c4) = (r1, (w5, ?c4 @ new))"
        "commands new = []" "filter recon_line (printed new) = []"
      using read_output_adds[of os pr None ?w4 ?c4] by blast
    show ?thesis
    proof (cases r1)
      case (Inl e)
      with Inr ro(1) have "?body (?w3, ?c3) = (Inl e, (w5, ?c3 @ (Popen ?command ?cwd (Some pr) # new)))"
        by (simp add: io_bind_def recording_popen io_then_def)
      then have "run_subshot (recording os) target_dir (w, calls)
          = ?handler e (w5, ?c3 @ (Popen ?command ?cwd (Some pr) # new))"
        by (simp add: run io_try_def)
      with ro(2,3) show ?thesis by (auto simp: handler commands_append printed_append popens_append)
    next
      case r1: (Inr u)
      with Inr ro(1) have "?body (?w3, ?c3)
          = (Inr True, (snd (os_print os ScreenshotsCompleted w5), ?c4 @ new @ [Print ScreenshotsCompleted]))"
        by (simp add: io_bind_def recording_popen io_then_def recording_print_ok[OF ok] io_return_def)
      then have "run_subshot (recording os) target_dir (w, calls)
          = (Inr True, (snd (os_print os ScreenshotsCompleted w5), ?c4 @ new @ [Print ScreenshotsCompleted]))"
        by (simp add: run io_try_def)
      with ro(2,3) show ?thesis by (auto simp: commands_append printed_append popens_append)
    qed
  qed
  with p show ?thesis by blast
qed

lemma run_subshot_adds:
  assumes ok: "prints_ok os"
  shows "\<exists>b w' new skip ss. run_subshot (recording os) target_dir (w, calls) = (Inr b, (w', calls @ new))
     \<and> commands new = ss \<and> filter recon_line (printed new) = skip
     \<and> ((ss = [] \<and> (skip = [SubshotNotFound, InstallSubshot]
                      \<or> skip = [PlaywrightNotInstalled, InstallPlaywright]
                      \<or> skip = [AliveSubsNotFound] \<or> skip = [AliveSubsEmpty]))
         \<or> (skip = [] \<and> (\<exists>p. ss = [subshot_command p])))"
proof -
  let ?alive = "os_path_join target_dir (lit ''alive_subs.txt'')"
  consider (a) "\<not> truthy (check_subshot_available os w)"
    | (b) "truthy (check_subshot_available os w)" "\<not> check_playwright_installed os w"
    | (c) "truthy (check_subshot_available os w)" "check_playwright_installed os w"
        "\<not> os_exists os ?alive w"
    | (d) "truthy (check_subshot_available os w)" "check_playwright_installed os w"
        "os_exists os ?alive w" "os_getsize os ?alive w = 0"
    | (e) "truthy (check_subshot_available os w)" "check_playwright_installed os w"
        "os_exists os ?alive w" "os_getsize os ?alive w \<noteq> 0"
    by blast
  then show ?thesis
  proof cases
    case a
    from run_subshot_skip(1)[OF ok a, of target_dir calls] obtain w' where
      "run_subshot (recording os) target_dir (w, calls)
        = (Inr False, (w', calls @ [Print SubshotNotFound, Print InstallSubshot]))" by blast
    then show ?thesis by auto
  next
    case b
    from run_subshot_skip(2)[OF ok b, of target_dir calls] obtain w' where
      "run_subshot (recording os) target_dir (w, calls)
        = (Inr False, (w', calls @ [Print PlaywrightNotInstalled, Print InstallPlaywright]))" by blast
    then show ?thesis by auto
  next
    case c
    from run_subshot_skip(3)[OF ok c, of calls] obtain w' where
      "run_subshot (recording os) target_dir (w, calls)
        = (Inr False, (w', calls @ [Print AliveSubsNotFound]))" by blast
    then show ?thesis by auto
  next
    case d
    from run_subshot_skip(4)[OF ok d, of calls] obtain w' where
      "run_subshot (recording os) target_dir (w, calls)
        = (Inr False, (w', calls @ [Print AliveSubsEmpty]))" by blast
    then show ?thesis by auto
  next
    case e
    from run_subshot_launch[OF ok e, of calls] obtain b w' new p where
      "run_subshot (recording os) target_dir (w, calls) = (Inr b, (w', calls @ new))"
      "commands new = [subshot_command p]" "filter recon_line (printed new) = []" by blast
    then show ?thesis by auto
  qed
qed

subsection \<open>The commands and lines of a run\<close>

lemma alive_check_adds:
  assumes ok: "prints_ok os"
  shows "\<exists>w' new warn.
     (if \<not> os_exists (recording os) path (w, calls) \<or> os_getsize (recording os) path (w, calls) = 0
      then os_print (recording os) NoAliveSubdomains (w, calls)
      else (Inr (), (w, calls))) = (Inr (), (w', calls @ new))
     \<and> commands new = [] \<and> filter recon_line (printed new) = warn
     \<and> (warn = [] \<or> warn = [NoAliveSubdomains])"
  by (simp add: recording_queries recording_print_ok[OF ok])

lemma run_recon_char:
  assumes ok: "prints_ok os"
  shows "\<exists>w' calls warn skip ss.
     run_recon (recording os) templates_path mode target_input target_dir (w, []) = (Inr (), (w', calls))
     \<and> commands calls
         = subfinder_command mode target_input # ss
           @ [cmd_gau, cmd_katana, cmd_combine, cmd_xss, cmd_kxss, cmd_grep_js, cmd_httpx_js]
           @ (if contains templates_path (lit ''/path'') then [] else [nuclei_command templates_path])
     \<and> filter recon_line (printed calls)
         = [StartingWorkflow, StepHeader 1] @ warn @ [StepHeader 2] @ skip
           @ [StepHeader 3, StepHeader 4, StepHeader 5, StepHeader 6, StepHeader 7]
           @ (if contains templates_path (lit ''/path'')
              then [NucleiPathWarning, UpdateThePath, SkippingNuclei] else [])
           @ [ReconComplete]
     \<and> (warn = [] \<or> warn = [NoAliveSubdomains])
     \<and> ((ss = [] \<and> (skip = [SubshotNotFound, InstallSubshot]
                      \<or> skip = [PlaywrightNotInstalled, InstallPlaywright]
                      \<or> skip = [AliveSubsNotFound] \<or> skip = [AliveSubsEmpty]))
         \<or> (skip = [] \<and> (\<exists>p. ss = [subshot_command p])))"
proof -
  let ?os = "recording os"
  let ?cwd = "Some target_dir"
  let ?alive = "os_path_join target_dir (lit ''alive_subs.txt'')"
  let ?seg1 = "[os_print ?os Rule, os_print ?os StartingWorkflow, os_print ?os Rule,
           os_print ?os (StepHeader 1), os_print ?os Rule,
           io_ignore (run_piped_command ?os (subfinder_command mode target_input) ?cwd)]"
  let ?check = "\<lambda>w. if \<not> os_exists ?os ?alive w \<or> os_getsize ?os ?alive w = 0
                 then os_print ?os NoAliveSubdomains w
                 else (Inr (), w)"
  let ?seg2 = "[os_print ?os (StepHeader 2), os_print ?os Rule]"
  let ?subshot = "io_ignore (run_subshot ?os target_dir)"
  let ?nuclei = "if contains templates_path (lit ''/path'')
            then io_seq [os_print ?os Rule, os_print ?os NucleiPathWarning, os_print ?os UpdateThePath,
                         os_print ?os SkippingNuclei, os_print ?os Rule]
            else io_ignore (run_piped_command ?os (nuclei_command templates_path) ?cwd)"
  let ?seg3 = "[os_print ?os (StepHeader 3), os_print ?os Rule,
           run_parallel_commands ?os cmd_gau cmd_katana (lit ''GAU'') (lit ''Katana'') ?cwd,
           os_print ?os (StepHeader 4), os_print ?os Rule,
           io_ignore (run_piped_command ?os cmd_combine ?cwd),
           os_print ?os (StepHeader 5), os_print ?os Rule,
           io_ignore (run_piped_command ?os cmd_xss ?cwd),
           io_ignore (run_piped_command ?os cmd_kxss ?cwd),
           os_print ?os (StepHeader 6), os_print ?os Rule,
           io_ignore (run_piped_command ?os cmd_grep_js ?cwd),
           io_ignore (run_piped_command ?os cmd_httpx_js ?cwd),
           os_print ?os (StepHeader 7), os_print ?os Rule,
           ?nuclei,
           os_print ?os Rule, os_print ?os ReconComplete, os_print ?os Rule]"
  let ?cs3 = "[cmd_gau, cmd_katana, cmd_combine, cmd_xss, cmd_kxss, cmd_grep_js, cmd_httpx_js]
           @ (if contains templates_path (lit ''/path'') then [] else [nuclei_command templates_path])"
  let ?ls3 = "[StepHeader 3, StepHeader 4, StepHeader 5, StepHeader 6, StepHeader 7]
           @ (if contains templates_path (lit ''/path'')
              then [NucleiPathWarning, UpdateThePath, SkippingNuclei] else [])
           @ [ReconComplete]"
  note rules = emits_Cons emits_if emits_print[OF ok] emits_piped[OF ok] emits_parallel[OF ok] emits_Nil
  have e1: "emits (io_seq ?seg1) [subfinder_command mode target_input] [StartingWorkflow, StepHeader 1]"
    by (rule emits_eq, (rule rules)+, simp_all)
  have e2: "emits (io_seq ?seg2) [] [StepHeader 2]"
    by (rule emits_eq, (rule rules)+, simp_all)
  have e3: "emits (io_seq ?seg3) ?cs3 ?ls3"
    by (rule emits_eq, (rule rules)+, simp_all)
  have split: "run_recon ?os templates_path mode target_input target_dir
      = io_seq (?seg1 @ ?check # ?seg2 @ ?subshot # ?seg3)"
    by (simp add: run_recon_def Let_def)
  from e1 obtain w1 new1 where
    1: "io_seq ?seg1 (w, []) = (Inr (), (w1, new1))"
      "commands new1 = [subfinder_command mode target_input]"
      "filter recon_line (printed new1) = [StartingWorkflow, StepHeader 1]"
    unfolding emits_def by force
  from alive_check_adds[OF ok, of ?alive w1 new1] obtain w2 new2 warn where
    2: "?check (w1, new1) = (Inr (), (w2, new1 @ new2))"
      "commands new2 = []" "filter recon_line (printed new2) = warn"
      "warn = [] \<or> warn = [NoAliveSubdomains]"
    by blast
  from e2 obtain w3 new3 where
    3: "io_seq ?seg2 (w2, new1 @ new2) = (Inr (), (w3, (new1 @ new2) @ new3))"
      "commands new3 = []" "filter recon_line (printed new3) = [StepHeader 2]"
    unfolding emits_def by blast
  from run_subshot_adds[OF ok, of target_dir w3 "(new1 @ new2) @ new3"] obtain b w4 new4 skip ss where
    4: "run_subshot ?os target_dir (w3, (new1 @ new2) @ new3)
          = (Inr b, (w4, ((new1 @ new2) @ new3) @ new4))"
      "commands new4 = ss" "filter recon_line (printed new4) = skip"
      "(ss = [] \<and> (skip = [SubshotNotFound, InstallSubshot]
                      \<or> skip = [PlaywrightNotInstalled, InstallPlaywright]
                      \<or> skip = [AliveSubsNotFound] \<or> skip = [AliveSubsEmpty]))
         \<or> (skip = [] \<and> (\<exists>p. ss = [subshot_command p]))"
    by blast
  from e3 obtain w5 new5 where
    5: "io_seq ?seg3 (w4, ((new1 @ new2) @ new3) @ new4)
          = (Inr (), (w5, (((new1 @ new2) @ new3) @ new4) @ new5))"
      "commands new5 = ?cs3" "filter recon_line (printed new5) = ?ls3"
    unfolding emits_def by blast
  have s2: "io_seq (?seg2 @ ?subshot # ?seg3) (w2, new1 @ new2)
      = (Inr (), (w5, (((new1 @ new2) @ new3) @ new4) @ new5))"
    using 3(1) 4(1) 5(1) by (simp only: io_seq_append io_seq.simps io_ignore_def prod.case sum.case)
  have s1: "io_seq (?check # ?seg2 @ ?subshot # ?seg3) (w1, new1)
      = (Inr (), (w5, (((new1 @ new2) @ new3) @ new4) @ new5))"
    using 2(1) s2 by (simp only: io_seq.simps prod.case sum.case)
  have run: "run_recon ?os templates_path mode target_input target_dir (w, [])
      = (Inr (), (w5, (((new1 @ new2) @ new3) @ new4) @ new5))"
    using 1(1) s1 by (simp only: split io_seq_append prod.case sum.case)
  have cs: "commands ((((new1 @ new2) @ new3) @ new4) @ new5)
      = subfinder_command mode target_input # ss @ ?cs3"
    by (simp only: commands_append 1(2) 2(2) 3(2) 4(2) 5(2)) simp
  have ls: "filter recon_line (printed ((((new1 @ new2) @ new3) @ new4) @ new5))
      = [StartingWorkflow, StepHeader 1] @ warn @ [StepHeader 2] @ skip @ ?ls3"
    by (simp only: printed_append filter_append 1(3) 2(3) 3(3) 4(3) 5(3)) simp
  from run cs ls 2(4) 4(4) show ?thesis by blast
qed

lemma nuclei_command_distinct:
  "nuclei_command templates_path \<noteq> subfinder_command mode target_input"
  "nuclei_command templates_path \<noteq> subshot_command p"
  "nuclei_command templates_path \<noteq> cmd_gau"
  "nuclei_command templates_path \<noteq> cmd_katana"
  "nuclei_command templates_path \<noteq> cmd_combine"
  "nuclei_command templates_path \<noteq> cmd_xss"
  "nuclei_command templates_path \<noteq> cmd_kxss"
  "nuclei_command templates_path \<noteq> cmd_grep_js"
  "nuclei_command templates_path \<noteq> cmd_httpx_js"
  by (simp_all add: nuclei_command_def subfinder_command_def subshot_command_def cmd_gau_def
      cmd_katana_def cmd_combine_def cmd_xss_def cmd_kxss_def cmd_grep_js_def cmd_httpx_js_def
      lit_def)

subsection \<open>Runs on the machines of the examples\<close>

lemma demo_subshot_busy:
  "run_subshot (recording demo_os) (lit ''/tmp/example'') (busy_machine, [])
     = (Inr False,
        (busy_machine,
         [Print Rule, Print RunningSubshot, Print Rule,
          Popen (subshot_command (lit ''/usr/local/bin/subshot'')) (Some (lit ''/tmp/example'')) None,
          Print (ErrorRunningSubshot (lit ''[Errno 11] Resource temporarily unavailable''))]))"
  by code_simp

lemma demo_subshot_skip:
  "run_subshot (recording demo_os) (lit ''/tmp/example'') (demo_machine, [])
     = (Inr False, (demo_machine, [Print AliveSubsNotFound]))"
  by code_simp

lemma demo_subshot_closed_console:
  "run_subshot closed_console_os (lit ''/tmp/example'') demo_machine
     = (Inl (lit ''[Errno 32] Broken pipe''), demo_machine)"
  by code_simp

lemma demo_checks:
  "truthy (check_subshot_available demo_os demo_machine)"
  "check_playwright_installed demo_os demo_machine"
  "\<not> os_exists demo_os (os_path_join (lit ''/tmp/example'') (lit ''alive_subs.txt'')) demo_machine"
  by code_simp+

lemma busy_checks:
  "truthy (check_subshot_available demo_os busy_machine)"
  "check_playwright_installed demo_os busy_machine"
  "os_exists demo_os (os_path_join (lit ''/tmp/example'') (lit ''alive_subs.txt'')) busy_machine"
  "os_getsize demo_os (os_path_join (lit ''/tmp/example'') (lit ''alive_subs.txt'')) busy_machine \<noteq> 0"
  by code_simp+

lemma demo_recon_unconfigured:
  "fst (run_recon (recording demo_os) NUCLEI_TEMPLATES_PATH 1 (lit ''example.com'')
          (lit ''/tmp/example'') (demo_machine, [])) = Inr ()"
  "commands (snd (snd (run_recon (recording demo_os) NUCLEI_TEMPLATES_PATH 1 (lit ''example.com'')
          (lit ''/tmp/example'') (demo_machine, []))))
     = [subfinder_command 1 (lit ''example.com''), cmd_gau, cmd_katana, cmd_combine, cmd_xss,
        cmd_kxss, cmd_grep_js, cmd_httpx_js]"
  "filter recon_line (printed (snd (snd (run_recon (recording demo_os) NUCLEI_TEMPLATES_PATH 1
          (lit ''example.com'') (lit ''/tmp/example'') (demo_machine, [])))))
     = [StartingWorkflow, StepHeader 1, NoAliveSubdomains, StepHeader 2, AliveSubsNotFound,
        StepHeader 3, StepHeader 4, StepHeader 5, StepHeader 6, StepHeader 7,
        NucleiPathWarning, UpdateThePath, SkippingNuclei, ReconComplete]"
  by code_simp+

lemma demo_recon_configured:
  "fst (run_recon (recording demo_os) (lit ''/opt/nuclei-templates/http/exposures/'') 1
          (lit ''example.com'') (lit ''/tmp/example'') (demo_machine, [])) = Inr ()"
  "commands (snd (snd (run_recon (recording demo_os) (lit ''/opt/nuclei-templates/http/exposures/'') 1
          (lit ''example.com'') (lit ''/tmp/example'') (demo_machine, []))))
     = [subfinder_command 1 (lit ''example.com''), cmd_gau, cmd_katana, cmd_combine, cmd_xss,
        cmd_kxss, cmd_grep_js, cmd_httpx_js,
        nuclei_command (lit ''/opt/nuclei-templates/http/exposures/'')]"
  "filter recon_line (printed (snd (snd (run_recon (recording demo_os)
          (lit ''/opt/nuclei-templates/http/exposures/'') 1
          (lit ''example.com'') (lit ''/tmp/example'') (demo_machine, [])))))
     = [StartingWorkflow, StepHeader 1, NoAliveSubdomains, StepHeader 2, AliveSubsNotFound,
        StepHeader 3, StepHeader 4, StepHeader 5, StepHeader 6, StepHeader 7, ReconComplete]"
  by code_simp+

lemma demo_contains:
  "contains NUCLEI_TEMPLATES_PATH (lit ''/path'')"
  "\<not> contains (lit ''/opt/nuclei-templates/http/exposures/'') (lit ''/path'')"
  by code_simp+

subsection \<open>The snapshot stage\<close>

text \<open>
  C6 as stated fails. The value that \<open>run_subshot\<close> returns when it skips is \<open>False\<close>,
  and \<open>False\<close> is also what it returns when the stage was attempted and failed: on a
  machine where all four checks pass and there is no room for a new process,
  \<open>subprocess.Popen\<close> is called, raises, and the value is that of a skip. And the
  prints of a skip stand outside every \<open>try\<close>: with a closed console \<open>run_subshot\<close>
  raises although the list of alive hosts is missing.
\<close>

theorem run_subshot_false_on_failure_counterexample:
  "truthy (check_subshot_available demo_os busy_machine)
   \<and> check_playwright_installed demo_os busy_machine
   \<and> os_exists demo_os (os_path_join (lit ''/tmp/example'') (lit ''alive_subs.txt'')) busy_machine
   \<and> os_getsize demo_os (os_path_join (lit ''/tmp/example'') (lit ''alive_subs.txt'')) busy_machine \<noteq> 0
   \<and> run_subshot (recording demo_os) (lit ''/tmp/example'') (busy_machine, [])
     = (Inr False,
        (busy_machine,
         [Print Rule, Print RunningSubshot, Print Rule,
          Popen (subshot_command (lit ''/usr/local/bin/subshot'')) (Some (lit ''/tmp/example'')) None,
          Print (ErrorRunningSubshot (lit ''[Errno 11] Resource temporarily unavailable''))]))
   \<and> \<not> os_exists demo_os (os_path_join (lit ''/tmp/example'') (lit ''alive_subs.txt'')) demo_machine
   \<and> run_subshot (recording demo_os) (lit ''/tmp/example'') (demo_machine, [])
     = (Inr False, (demo_machine, [Print AliveSubsNotFound]))
   \<and> run_subshot closed_console_os (lit ''/tmp/example'') demo_machine
     = (Inl (lit ''[Errno 32] Broken pipe''), demo_machine)"
  using busy_checks demo_checks(3) demo_subshot_busy demo_subshot_skip demo_subshot_closed_console
  by (intro conjI)

text \<open>
  C6, amended. When console prints do not raise: if subshot is not available, or
  Playwright is not installed, or \<open>alive_subs.txt\<close> is missing, or it is empty,
  \<open>run_subshot\<close> prints the lines of the first of these checks that fails, launches
  nothing and returns \<open>False\<close>, raising nothing. \<open>run_recon\<close> drops that
  value: it returns normally, and after the subfinder command and at most one command
  of subshot it launches the commands of steps 3 to 7 in their order and prints the
  headers of all seven steps and the completion banner. A skipped snapshot stage shows
  as its lines between the headers of steps 2 and 3, with no command of subshot.
\<close>

theorem run_subshot_skips_recon_proceeds:
  assumes "prints_ok os"
  shows "(\<not> truthy (check_subshot_available os w) \<longrightarrow>
        (\<exists>w'. run_subshot (recording os) target_dir (w, calls)
           = (Inr False, (w', calls @ [Print SubshotNotFound, Print InstallSubshot]))))
    \<and> (truthy (check_subshot_available os w) \<and> \<not> check_playwright_installed os w \<longrightarrow>
        (\<exists>w'. run_subshot (recording os) target_dir (w, calls)
           = (Inr False, (w', calls @ [Print PlaywrightNotInstalled, Print InstallPlaywright]))))
    \<and> (truthy (check_subshot_available os w) \<and> check_playwright_installed os w
        \<and> \<not> os_exists os (os_path_join target_dir (lit ''alive_subs.txt'')) w \<longrightarrow>
        (\<exists>w'. run_subshot (recording os) target_dir (w, calls)
           = (Inr False, (w', calls @ [Print AliveSubsNotFound]))))
    \<and> (truthy (check_subshot_available os w) \<and> check_playwright_installed os w
        \<and> os_exists os (os_path_join target_dir (lit ''alive_subs.txt'')) w
        \<and> os_getsize os (os_path_join target_dir (lit ''alive_subs.txt'')) w = 0 \<longrightarrow>
        (\<exists>w'. run_subshot (recording os) target_dir (w, calls)
           = (Inr False, (w', calls @ [Print AliveSubsEmpty]))))
    \<and> (\<exists>w' calls' warn skip ss.
         run_recon (recording os) templates_path mode target_input target_dir (w, [])
           = (Inr (), (w', calls'))
         \<and> commands calls'
             = subfinder_command mode target_input # ss
               @ [cmd_gau, cmd_katana, cmd_combine, cmd_xss, cmd_kxss, cmd_grep_js, cmd_httpx_js]
               @ (if contains templates_path (lit ''/path'') then [] else [nuclei_command templates_path])
         \<and> filter recon_line (printed calls')
             = [StartingWorkflow, StepHeader 1] @ warn @ [StepHeader 2] @ skip
               @ [StepHeader 3, StepHeader 4, StepHeader 5, StepHeader 6, StepHeader 7]
               @ (if contains templates_path (lit ''/path'')
                  then [NucleiPathWarning, UpdateThePath, SkippingNuclei] else [])
               @ [ReconComplete]
         \<and> (warn = [] \<or> warn = [NoAliveSubdomains])
         \<and> ((ss = [] \<and> (skip = [SubshotNotFound, InstallSubshot]
                          \<or> skip = [PlaywrightNotInstalled, InstallPlaywright]
                          \<or> skip = [AliveSubsNotFound] \<or> skip = [AliveSubsEmpty]))
             \<or> (skip = [] \<and> (\<exists>p. ss = [subshot_command p]))))"
proof (intro conjI impI)
  show "\<exists>w'. run_subshot (recording os) target_dir (w, calls)
           = (Inr False, (w', calls @ [Print SubshotNotFound, Print InstallSubshot]))"
    if "\<not> truthy (check_subshot_available os w)"
    using run_subshot_skip(1)[OF assms that] .
  show "\<exists>w'. run_subshot (recording os) target_dir (w, calls)
           = (Inr False, (w', calls @ [Print PlaywrightNotInstalled, Print InstallPlaywright]))"
    if "truthy (check_subshot_available os w) \<and> \<not> check_playwright_installed os w"
    using run_subshot_skip(2)[OF assms, of w target_dir calls] that by simp
  show "\<exists>w'. run_subshot (recording os) target_dir (w, calls)
           = (Inr False, (w', calls @ [Print AliveSubsNotFound]))"
    if "truthy (check_subshot_available os w) \<and> check_playwright_installed os w
        \<and> \<not> os_exists os (os_path_join target_dir (lit ''alive_subs.txt'')) w"
    using run_subshot_skip(3)[OF assms, of w target_dir calls] that by simp
  show "\<exists>w'. run_subshot (recording os) target_dir (w, calls)
           = (Inr False, (w', calls @ [Print AliveSubsEmpty]))"
    if "truthy (check_subshot_available os w) \<and> check_playwright_installed os w
        \<and> os_exists os (os_path_join target_dir (lit ''alive_subs.txt'')) w
        \<and> os_getsize os (os_path_join target_dir (lit ''alive_subs.txt'')) w = 0"
    using run_subshot_skip(4)[OF assms, of w target_dir calls] that by simp
  show "\<exists>w' calls' warn skip ss.
         run_recon (recording os) templates_path mode target_input target_dir (w, [])
           = (Inr (), (w', calls'))
         \<and> commands calls'
             = subfinder_command mode target_input # ss
               @ [cmd_gau, cmd_katana, cmd_combine, cmd_xss, cmd_kxss, cmd_grep_js, cmd_httpx_js]
               @ (if contains templates_path (lit ''/path'') then [] else [nuclei_command templates_path])
         \<and> filter recon_line (printed calls')
             = [StartingWorkflow, StepHeader 1] @ warn @ [StepHeader 2] @ skip
               @ [StepHeader 3, StepHeader 4, StepHeader 5, StepHeader 6, StepHeader 7]
               @ (if contains templates_path (lit ''/path'')
                  then [NucleiPathWarning, UpdateThePath, SkippingNuclei] else [])
               @ [ReconComplete]
         \<and> (warn = [] \<or> warn = [NoAliveSubdomains])
         \<and> ((ss = [] \<and> (skip = [SubshotNotFound, InstallSubshot]
                          \<or> skip = [PlaywrightNotInstalled, InstallPlaywright]
                          \<or> skip = [AliveSubsNotFound] \<or> skip = [AliveSubsEmpty]))
             \<or> (skip = [] \<and> (\<exists>p. ss = [subshot_command p])))"
    by (rule run_recon_char[OF assms])
qed

text \<open>
  On the machine of the examples the subfinder stand-in writes no list of alive hosts:
  the snapshot stage is skipped and the seven later commands are launched.
\<close>

theorem run_subshot_skips_recon_proceeds_witness:
  "prints_ok demo_os
   \<and> truthy (check_subshot_available demo_os demo_machine)
   \<and> check_playwright_installed demo_os demo_machine
   \<and> \<not> os_exists demo_os (os_path_join (lit ''/tmp/example'') (lit ''alive_subs.txt'')) demo_machine
   \<and> run_subshot (recording demo_os) (lit ''/tmp/example'') (demo_machine, [])
     = (Inr False, (demo_machine, [Print AliveSubsNotFound]))
   \<and> fst (run_recon (recording demo_os) NUCLEI_TEMPLATES_PATH 1 (lit ''example.com'')
          (lit ''/tmp/example'') (demo_machine, [])) = Inr ()
   \<and> commands (snd (snd (run_recon (recording demo_os) NUCLEI_TEMPLATES_PATH 1 (lit ''example.com'')
          (lit ''/tmp/example'') (demo_machine, []))))
     = [subfinder_command 1 (lit ''example.com''), cmd_gau, cmd_katana, cmd_combine, cmd_xss,
        cmd_kxss, cmd_grep_js, cmd_httpx_js]
   \<and> filter recon_line (printed (snd (snd (run_recon (recording demo_os) NUCLEI_TEMPLATES_PATH 1
          (lit ''example.com'') (lit ''/tmp/example'') (demo_machine, [])))))
     = [StartingWorkflow, StepHeader 1, NoAliveSubdomains, StepHeader 2, AliveSubsNotFound,
        StepHeader 3, StepHeader 4, StepHeader 5, StepHeader 6, StepHeader 7,
        NucleiPathWarning, UpdateThePath, SkippingNuclei, ReconComplete]"
proof -
  note t = run_subshot_skips_recon_proceeds[where os = demo_os and w = demo_machine
      and target_dir = "lit ''/tmp/example''" and calls = "[]"
      and templates_path = NUCLEI_TEMPLATES_PATH and mode = 1 and target_input = "lit ''example.com''",
      OF demo_os_ok(1)]
  from t have "\<exists>w'. run_subshot (recording demo_os) (lit ''/tmp/example'') (demo_machine, [])
      = (Inr False, (w', [] @ [Print AliveSubsNotFound]))"
    using demo_checks by blast
  with demo_os_ok(1) demo_checks demo_subshot_skip demo_recon_unconfigured
  show ?thesis by (intro conjI)
qed

subsection \<open>The vulnerability scan stage\<close>

text \<open>
  C7. When console prints do not raise, \<open>run_recon\<close> returns normally, and the nuclei
  command is among the commands it launches exactly when \<open>NUCLEI_TEMPLATES_PATH\<close> does
  not contain \<open>/path\<close>; it is then the last command launched. When the path contains
  \<open>/path\<close>, the three lines of the warning are printed after the header of step 7 and
  no command is launched for that step. Either way the last of the lines is the
  completion banner.
\<close>

theorem run_recon_nuclei_iff_configured:
  assumes "prints_ok os"
  shows "\<exists>w' calls ss lines.
     run_recon (recording os) templates_path mode target_input target_dir (w, []) = (Inr (), (w', calls))
     \<and> commands calls
         = subfinder_command mode target_input # ss
           @ [cmd_gau, cmd_katana, cmd_combine, cmd_xss, cmd_kxss, cmd_grep_js, cmd_httpx_js]
           @ (if contains templates_path (lit ''/path'') then [] else [nuclei_command templates_path])
     \<and> (nuclei_command templates_path \<in> set (commands calls)
          \<longleftrightarrow> \<not> contains templates_path (lit ''/path''))
     \<and> filter recon_line (printed calls)
         = lines @ [StepHeader 7]
           @ (if contains templates_path (lit ''/path'')
              then [NucleiPathWarning, UpdateThePath, SkippingNuclei] else [])
           @ [ReconComplete]
     \<and> (NucleiPathWarning \<in> set (printed calls) \<longleftrightarrow> contains templates_path (lit ''/path''))"
proof -
  let ?c = "contains templates_path (lit ''/path'')"
  from run_recon_char[OF assms, of templates_path mode target_input target_dir w]
  obtain w' calls warn skip ss where
    run: "run_recon (recording os) templates_path mode target_input target_dir (w, []) = (Inr (), (w', calls))"
    and cs: "commands calls
         = subfinder_command mode target_input # ss
           @ [cmd_gau, cmd_katana, cmd_combine, cmd_xss, cmd_kxss, cmd_grep_js, cmd_httpx_js]
           @ (if ?c then [] else [nuclei_command templates_path])"
    and ls: "filter recon_line (printed calls)
         = [StartingWorkflow, StepHeader 1] @ warn @ [StepHeader 2] @ skip
           @ [StepHeader 3, StepHeader 4, StepHeader 5, StepHeader 6, StepHeader 7]
           @ (if ?c then [NucleiPathWarning, UpdateThePath, SkippingNuclei] else [])
           @ [ReconComplete]"
    and warn: "warn = [] \<or> warn = [NoAliveSubdomains]"
    and skip: "(ss = [] \<and> (skip = [SubshotNotFound, InstallSubshot]
                      \<or> skip = [PlaywrightNotInstalled, InstallPlaywright]
                      \<or> skip = [AliveSubsNotFound] \<or> skip = [AliveSubsEmpty]))
         \<or> (skip = [] \<and> (\<exists>p. ss = [subshot_command p]))"
    by blast
  let ?lines = "[StartingWorkflow, StepHeader 1] @ warn @ [StepHeader 2] @ skip
           @ [StepHeader 3, StepHeader 4, StepHeader 5, StepHeader 6]"
  from skip have ss: "nuclei_command templates_path \<notin> set ss"
    by (auto simp: nuclei_command_distinct)
  have mem: "nuclei_command templates_path \<in> set (commands calls) \<longleftrightarrow> \<not> ?c"
    using ss by (simp add: cs nuclei_command_distinct)
  have ls': "filter recon_line (printed calls)
         = ?lines @ [StepHeader 7]
           @ (if ?c then [NucleiPathWarning, UpdateThePath, SkippingNuclei] else [])
           @ [ReconComplete]"
    by (simp add: ls)
  have "NucleiPathWarning \<in> set (filter recon_line (printed calls)) \<longleftrightarrow> ?c"
    using warn skip by (auto simp: ls)
  then have pr: "NucleiPathWarning \<in> set (printed calls) \<longleftrightarrow> ?c" by simp
  from run cs mem ls' pr show ?thesis by blast
qed

text \<open>
  Two runs on the machine of the examples, with the path of the source and with a
  path that has been set.
\<close>

theorem run_recon_nuclei_iff_configured_witness:
  "prints_ok demo_os
   \<and> contains NUCLEI_TEMPLATES_PATH (lit ''/path'')
   \<and> fst (run_recon (recording demo_os) NUCLEI_TEMPLATES_PATH 1 (lit ''example.com'')
          (lit ''/tmp/example'') (demo_machine, [])) = Inr ()
   \<and> commands (snd (snd (run_recon (recording demo_os) NUCLEI_TEMPLATES_PATH 1 (lit ''example.com'')
          (lit ''/tmp/example'') (demo_machine, []))))
     = [subfinder_command 1 (lit ''example.com''), cmd_gau, cmd_katana, cmd_combine, cmd_xss,
        cmd_kxss, cmd_grep_js, cmd_httpx_js]
   \<and> filter recon_line (printed (snd (snd (run_recon (recording demo_os) NUCLEI_TEMPLATES_PATH 1
          (lit ''example.com'') (lit ''/tmp/example'') (demo_machine, [])))))
     = [StartingWorkflow, StepHeader 1, NoAliveSubdomains, StepHeader 2, AliveSubsNotFound,
        StepHeader 3, StepHeader 4, StepHeader 5, StepHeader 6, StepHeader 7,
        NucleiPathWarning, UpdateThePath, SkippingNuclei, ReconComplete]
   \<and> \<not> contains (lit ''/opt/nuclei-templates/http/exposures/'') (lit ''/path'')
   \<and> fst (run_recon (recording demo_os) (lit ''/opt/nuclei-templates/http/exposures/'') 1
          (lit ''example.com'') (lit ''/tmp/example'') (demo_machine, [])) = Inr ()
   \<and> commands (snd (snd (run_recon (recording demo_os) (lit ''/opt/nuclei-templates/http/exposures/'') 1
          (lit ''example.com'') (lit ''/tmp/example'') (demo_machine, []))))
     = [subfinder_command 1 (lit ''example.com''), cmd_gau, cmd_katana, cmd_combine, cmd_xss,
        cmd_kxss, cmd_grep_js, cmd_httpx_js,
        nuclei_command (lit ''/opt/nuclei-templates/http/exposures/'')]
   \<and> filter recon_line (printed (snd (snd (run_recon (recording demo_os)
          (lit ''/opt/nuclei-templates/http/exposures/'') 1
          (lit ''example.com'') (lit ''/tmp/example'') (demo_machine, [])))))
     = [StartingWorkflow, StepHeader 1, NoAliveSubdomains, StepHeader 2, AliveSubsNotFound,
        StepHeader 3, StepHeader 4, StepHeader 5, StepHeader 6, StepHeader 7, ReconComplete]
   \<and> nuclei_command (lit ''/opt/nuclei-templates/http/exposures/'')
       \<in> set (commands (snd (snd (run_recon (recording demo_os)
          (lit ''/opt/nuclei-templates/http/exposures/'') 1
          (lit ''example.com'') (lit ''/tmp/example'') (demo_machine, [])))))
   \<and> nuclei_command NUCLEI_TEMPLATES_PATH
       \<notin> set (commands (snd (snd (run_recon (recording demo_os) NUCLEI_TEMPLATES_PATH 1
          (lit ''example.com'') (lit ''/tmp/example'') (demo_machine, [])))))"
proof -
  from run_recon_nuclei_iff_configured[where os = demo_os and w = demo_machine
      and target_dir = "lit ''/tmp/example''"
      and templates_path = "lit ''/opt/nuclei-templates/http/exposures/''"
      and mode = 1 and target_input = "lit ''example.com''", OF demo_os_ok(1)]
  have a: "nuclei_command (lit ''/opt/nuclei-templates/http/exposures/'')
       \<in> set (commands (snd (snd (run_recon (recording demo_os)
          (lit ''/opt/nuclei-templates/http/exposures/'') 1
          (lit ''example.com'') (lit ''/tmp/example'') (demo_machine, [])))))"
    using demo_contains(2) by auto
  from run_recon_nuclei_iff_configured[where os = demo_os and w = demo_machine
      and target_dir = "lit ''/tmp/example''"
      and templates_path = NUCLEI_TEMPLATES_PATH
      and mode = 1 and target_input = "lit ''example.com''", OF demo_os_ok(1)]
  have b: "nuclei_command NUCLEI_TEMPLATES_PATH
       \<notin> set (commands (snd (snd (run_recon (recording demo_os) NUCLEI_TEMPLATES_PATH 1
          (lit ''example.com'') (lit ''/tmp/example'') (demo_machine, [])))))"
    using demo_contains(1) by auto
  from a b demo_os_ok(1) demo_contains demo_recon_unconfigured demo_recon_configured
  show ?thesis by (intro conjI)
qed

end
